theory Spec2Isabelle
  imports
    Main
    "HOL-Library.Char_ord"
    "HOL-Library.List_Lexorder"
    "HOL-Library.Product_Lexorder"
    "HOL-Library.AList"
    "HOL-Library.Multiset"
begin

section \<open>The data model of mprofile\<close>

text \<open>
  The analysis layer of mprofile (\<^verbatim>\<open>src/mprofile/__init__.py\<close>) works on raw tuples handed
  over by the C extension and wraps them in thin classes. A frame tuple is
  \<^verbatim>\<open>(name, filename, firstlineno, lineno)\<close>; a trace tuple is \<^verbatim>\<open>(size, frames)\<close> where
  \<^verbatim>\<open>frames\<close> is the tuple of frame tuples in capture order.
\<close>

type_synonym frame_tuple = "string \<times> string \<times> int \<times> int"

type_synonym trace_tuple = "int \<times> frame_tuple list"

text \<open>The exceptions the modelled code can raise. \<^verbatim>\<open>ArithmeticError\<close> is Python's common
  base class of \<^verbatim>\<open>ZeroDivisionError\<close> and \<^verbatim>\<open>OverflowError\<close>.\<close>

datatype py_error = TypeError | ValueError | IndexError | ArithmeticError

subsection \<open>Frame\<close>

text \<open>\<^verbatim>\<open>class Frame\<close>: a wrapper around one frame tuple, with the four properties reading
  the tuple's components.\<close>

datatype frame = Frame (frame_tuple_of: frame_tuple)

definition frame_name :: "frame \<Rightarrow> string" where
  "frame_name f = fst (frame_tuple_of f)"

definition frame_filename :: "frame \<Rightarrow> string" where
  "frame_filename f = fst (snd (frame_tuple_of f))"

definition frame_firstlineno :: "frame \<Rightarrow> int" where
  "frame_firstlineno f = fst (snd (snd (frame_tuple_of f)))"

definition frame_lineno :: "frame \<Rightarrow> int" where
  "frame_lineno f = snd (snd (snd (frame_tuple_of f)))"

subsection \<open>Traceback\<close>

text \<open>
  \<^verbatim>\<open>class Traceback\<close> has the single slot \<^verbatim>\<open>_frames\<close>; equality, hashing and ordering are
  those of \<^verbatim>\<open>_frames\<close>, so a Traceback object is identified with the value of that slot.
  The constructor stores \<^verbatim>\<open>tuple(reversed(frames))\<close>.
\<close>

type_synonym traceback = "frame_tuple list"

definition Traceback :: "frame_tuple list \<Rightarrow> traceback" where
  "Traceback frames = rev frames"

definition traceback_len :: "traceback \<Rightarrow> nat" where
  "traceback_len tb = length tb"

text \<open>\<^verbatim>\<open>t[i]\<close> on a tuple: indices \<open>-len(t) .. -1\<close> address the items from the back,
  anything outside \<open>-len(t) .. len(t) - 1\<close> raises \<^verbatim>\<open>IndexError\<close>.\<close>

definition tuple_getitem :: "'a list \<Rightarrow> int \<Rightarrow> py_error + 'a" where
  "tuple_getitem xs i =
     (if 0 \<le> i \<and> i < int (length xs) then Inr (xs ! nat i)
      else if i < 0 \<and> - int (length xs) \<le> i then Inr (xs ! nat (int (length xs) + i))
      else Inl IndexError)"

text \<open>\<^verbatim>\<open>Traceback.__getitem__\<close> for an integer index: \<^verbatim>\<open>Frame(self._frames[index])\<close>.\<close>

definition traceback_getitem :: "traceback \<Rightarrow> int \<Rightarrow> py_error + frame" where
  "traceback_getitem tb index =
     (case tuple_getitem tb index of Inl e \<Rightarrow> Inl e | Inr t \<Rightarrow> Inr (Frame t))"

subsection \<open>What the analysis takes from the Python runtime\<close>

text \<open>
  Three computations the source delegates to the standard library are parameters of the
  embedding, so that every theorem holds for whatever they compute:
  \<^item> \<^verbatim>\<open>os.path.normcase\<close> (the identity on POSIX, case folding on Windows);
  \<^item> \<^verbatim>\<open>fnmatch.fnmatch(filename, pattern)\<close>;
  \<^item> the IEEE-754 double arithmetic of \<^verbatim>\<open>_scale_heap_sample\<close>: for the arguments
    \<open>size\<close>, \<open>count\<close> and \<open>sample_rate\<close> it yields the pair
    \<^verbatim>\<open>(int(scale * size), int(scale * count))\<close> where
    \<^verbatim>\<open>scale = 1.0 / (1.0 - math.exp(-(float(size) / count) / sample_rate))\<close>, or \<open>None\<close>
    when one of the float operations raises (\<^verbatim>\<open>ZeroDivisionError\<close>, \<^verbatim>\<open>OverflowError\<close>).
\<close>

record runtime =
  normcase :: "string \<Rightarrow> string"
  fnmatch :: "string \<Rightarrow> string \<Rightarrow> bool"
  float_scale :: "int \<Rightarrow> int \<Rightarrow> int \<Rightarrow> (int \<times> int) option"

text \<open>A runtime for concrete evaluations: POSIX \<^verbatim>\<open>normcase\<close>, and \<^verbatim>\<open>fnmatch\<close> on patterns
  without the metacharacters \<^verbatim>\<open>*\<close>, \<^verbatim>\<open>?\<close> and \<^verbatim>\<open>[\<close>, where it is string equality. It is only
  used with \<open>sample_rate \<le> 1\<close>, where the float arithmetic is never reached.\<close>

definition posix_literal :: runtime where
  "posix_literal =
     \<lparr>normcase = (\<lambda>path. path), fnmatch = (\<lambda>fname pat. fname = pat),
      float_scale = (\<lambda>sz cnt rate. None)\<rparr>"

subsection \<open>Statistic and StatisticDiff\<close>

record statistic =
  stat_traceback :: traceback
  stat_size :: int
  stat_count :: int

definition Statistic :: "traceback \<Rightarrow> int \<Rightarrow> int \<Rightarrow> statistic" where
  "Statistic tb sz cnt = \<lparr>stat_traceback = tb, stat_size = sz, stat_count = cnt\<rparr>"

text \<open>\<^verbatim>\<open>Statistic._sort_key\<close>\<close>

definition stat_sort_key :: "statistic \<Rightarrow> int \<times> int \<times> traceback" where
  "stat_sort_key st = (stat_size st, stat_count st, stat_traceback st)"

record statistic_diff =
  diff_traceback :: traceback
  diff_size :: int
  diff_size_diff :: int
  diff_count :: int
  diff_count_diff :: int

definition StatisticDiff :: "traceback \<Rightarrow> int \<Rightarrow> int \<Rightarrow> int \<Rightarrow> int \<Rightarrow> statistic_diff" where
  "StatisticDiff tb sz szd cnt cntd =
     \<lparr>diff_traceback = tb, diff_size = sz, diff_size_diff = szd,
      diff_count = cnt, diff_count_diff = cntd\<rparr>"

text \<open>\<^verbatim>\<open>StatisticDiff._sort_key\<close>\<close>

definition diff_sort_key :: "statistic_diff \<Rightarrow> int \<times> int \<times> int \<times> int \<times> traceback" where
  "diff_sort_key d =
     (\<bar>diff_size_diff d\<bar>, diff_size d, \<bar>diff_count_diff d\<bar>, diff_count d, diff_traceback d)"

text \<open>\<^verbatim>\<open>list.sort(reverse=True, key=k)\<close>: CPython reverses the list, sorts it stably in
  ascending order of the keys and reverses the result.\<close>

definition sort_reverse :: "('a \<Rightarrow> 'k::linorder) \<Rightarrow> 'a list \<Rightarrow> 'a list" where
  "sort_reverse k xs = rev (sort_key k (rev xs))"

subsection \<open>Filter\<close>

definition endswith :: "string \<Rightarrow> string \<Rightarrow> bool" where
  "endswith s suf = (length suf \<le> length s \<and> drop (length s - length suf) s = suf)"

text \<open>\<^verbatim>\<open>_normalize_filename\<close>: \<^verbatim>\<open>filename[:-1]\<close> drops the last character.\<close>

definition normalize_filename :: "runtime \<Rightarrow> string \<Rightarrow> string" where
  "normalize_filename rt fname =
     (let fname = normcase rt fname
      in if endswith fname ''.pyc'' \<or> endswith fname ''.pyo'' then butlast fname else fname)"

record trace_filter =
  inclusive :: bool
  filename_pattern :: string
  lineno :: "int option"
  all_frames :: bool

text \<open>\<^verbatim>\<open>Filter.__init__\<close>\<close>

definition Filter :: "runtime \<Rightarrow> bool \<Rightarrow> string \<Rightarrow> int option \<Rightarrow> bool \<Rightarrow> trace_filter" where
  "Filter rt incl pat ln af =
     \<lparr>inclusive = incl, filename_pattern = normalize_filename rt pat, lineno = ln,
      all_frames = af\<rparr>"

text \<open>The private \<^verbatim>\<open>Filter.__match_frame\<close>\<close>

definition match_frame_private :: "runtime \<Rightarrow> trace_filter \<Rightarrow> string \<Rightarrow> int \<Rightarrow> bool" where
  "match_frame_private rt self fname ln =
     (let fname = normalize_filename rt fname
      in if \<not> fnmatch rt fname (filename_pattern self) then False
         else (case lineno self of None \<Rightarrow> True | Some l \<Rightarrow> ln = l))"

text \<open>\<^verbatim>\<open>Filter._match_frame\<close>: the exclusive or with \<^verbatim>\<open>not self.inclusive\<close>.\<close>

definition match_frame :: "runtime \<Rightarrow> trace_filter \<Rightarrow> string \<Rightarrow> int \<Rightarrow> bool" where
  "match_frame rt self fname ln = (match_frame_private rt self fname ln \<noteq> (\<not> inclusive self))"

text \<open>\<^verbatim>\<open>Filter._match_traceback\<close>. Its argument is the frame tuple of a raw trace (see
  \<^verbatim>\<open>Snapshot._filter_trace\<close>), and \<^verbatim>\<open>traceback[0]\<close> raises on the empty tuple.\<close>

definition match_traceback :: "runtime \<Rightarrow> trace_filter \<Rightarrow> frame_tuple list \<Rightarrow> py_error + bool" where
  "match_traceback rt self tb =
     (if all_frames self then
        (if list_ex (\<lambda>(n, fname, fl, ln). match_frame_private rt self fname ln) tb
         then Inr (inclusive self)
         else Inr (\<not> inclusive self))
      else
        (case tuple_getitem tb 0 of
           Inl e \<Rightarrow> Inl e
         | Inr (n, fname, fl, ln) \<Rightarrow> Inr (match_frame rt self fname ln)))"

subsection \<open>Snapshot\<close>

record snapshot =
  traces :: "trace_tuple list"
  traceback_limit :: int
  sample_rate :: int

definition Snapshot :: "trace_tuple list \<Rightarrow> int \<Rightarrow> int \<Rightarrow> snapshot" where
  "Snapshot trs limit rate = \<lparr>traces = trs, traceback_limit = limit, sample_rate = rate\<rparr>"

text \<open>\<^verbatim>\<open>any(p(x) for x in xs)\<close> over a generator: it stops at the first true item, and an
  exception raised by \<open>p\<close> on an item that is reached propagates.\<close>

fun any_raising :: "('a \<Rightarrow> py_error + bool) \<Rightarrow> 'a list \<Rightarrow> py_error + bool" where
  "any_raising p [] = Inr False"
| "any_raising p (x # xs) =
     (case p x of Inl e \<Rightarrow> Inl e | Inr True \<Rightarrow> Inr True | Inr False \<Rightarrow> any_raising p xs)"

text \<open>\<^verbatim>\<open>not r\<close> on the result of a call that may raise.\<close>

definition not_raising :: "py_error + bool \<Rightarrow> py_error + bool" where
  "not_raising r = (case r of Inl e \<Rightarrow> Inl e | Inr b \<Rightarrow> Inr (\<not> b))"

text \<open>\<^verbatim>\<open>Snapshot._filter_trace\<close>\<close>

definition filter_trace ::
  "runtime \<Rightarrow> trace_filter list \<Rightarrow> trace_filter list \<Rightarrow> trace_tuple \<Rightarrow> py_error + bool" where
  "filter_trace rt include_filters exclude_filters trace =
     (let tb = snd trace in
      case (if include_filters \<noteq> []
            then not_raising (any_raising (\<lambda>f. match_traceback rt f tb) include_filters)
            else Inr False) of
        Inl e \<Rightarrow> Inl e
      | Inr True \<Rightarrow> Inr False
      | Inr False \<Rightarrow>
          (case (if exclude_filters \<noteq> []
                 then any_raising (\<lambda>f. not_raising (match_traceback rt f tb)) exclude_filters
                 else Inr False) of
             Inl e \<Rightarrow> Inl e
           | Inr True \<Rightarrow> Inr False
           | Inr False \<Rightarrow> Inr True))"

text \<open>The list comprehension \<^verbatim>\<open>[x for x in xs if p(x)]\<close> with a condition that may raise.\<close>

fun filter_raising :: "('a \<Rightarrow> py_error + bool) \<Rightarrow> 'a list \<Rightarrow> py_error + 'a list" where
  "filter_raising p [] = Inr []"
| "filter_raising p (x # xs) =
     (case p x of
        Inl e \<Rightarrow> Inl e
      | Inr keep \<Rightarrow>
          (case filter_raising p xs of
             Inl e \<Rightarrow> Inl e
           | Inr ys \<Rightarrow> Inr (if keep then x # ys else ys)))"

text \<open>The argument of \<^verbatim>\<open>filter_traces\<close> is any Python object: one that is not an instance of
  \<^verbatim>\<open>Iterable\<close>, or a sequence of filters.\<close>

datatype 'a py_argument = NotIterable | IterableOf "'a list"

text \<open>\<^verbatim>\<open>Snapshot.filter_traces\<close>\<close>

definition filter_traces :: "runtime \<Rightarrow> trace_filter py_argument \<Rightarrow> snapshot \<Rightarrow> py_error + snapshot" where
  "filter_traces rt filters self =
     (case filters of
        NotIterable \<Rightarrow> Inl TypeError
      | IterableOf fs \<Rightarrow>
          (if fs \<noteq> [] then
             (let include_filters = filter inclusive fs;
                  exclude_filters = filter (\<lambda>f. \<not> inclusive f) fs
              in case filter_raising (filter_trace rt include_filters exclude_filters)
                        (traces self) of
                   Inl e \<Rightarrow> Inl e
                 | Inr new_traces \<Rightarrow>
                     Inr (Snapshot new_traces (traceback_limit self) (sample_rate self)))
           else Inr (Snapshot (traces self) (traceback_limit self) (sample_rate self))))"

subsection \<open>Grouping\<close>

text \<open>
  The dictionary \<^verbatim>\<open>stats\<close> maps a derived Traceback to its Statistic. It is iterated
  (\<^verbatim>\<open>items()\<close>, \<^verbatim>\<open>values()\<close>), so it is an association list in insertion order with one
  entry per key. The dictionary \<^verbatim>\<open>tracebacks\<close> memoizes the derived keys and is only looked
  up, so it is a map.
\<close>

type_synonym stats_dict = "(traceback \<times> statistic) list"

text \<open>The second \<^verbatim>\<open>try\<close> block of both loops: add to the Statistic stored under the key, or
  store a new Statistic with count 1.\<close>

definition accumulate :: "stats_dict \<Rightarrow> traceback \<Rightarrow> int \<Rightarrow> stats_dict" where
  "accumulate stats tb sz =
     (case map_of stats tb of
        Some stat \<Rightarrow>
          AList.update tb
            (stat\<lparr>stat_size := stat_size stat + sz, stat_count := stat_count stat + 1\<rparr>) stats
      | None \<Rightarrow> stats @ [(tb, Statistic tb sz 1)])"

text \<open>The \<^verbatim>\<open>except KeyError\<close> branch of the non-cumulative loop: the key derived from the raw
  frame tuple of a trace. \<^verbatim>\<open>trace_traceback[:1]\<close> never raises, \<^verbatim>\<open>trace_traceback[0]\<close> does
  on the empty tuple.\<close>

definition derive_key :: "string \<Rightarrow> frame_tuple list \<Rightarrow> py_error + traceback" where
  "derive_key key_type trace_traceback =
     (if key_type = ''traceback'' then Inr (Traceback trace_traceback)
      else if key_type = ''lineno'' then Inr (Traceback (take 1 trace_traceback))
      else
        (case tuple_getitem trace_traceback 0 of
           Inl e \<Rightarrow> Inl e
         | Inr (n, fname, fl, ln) \<Rightarrow> Inr (Traceback [('''', fname, 0, 0)])))"

text \<open>One iteration of the non-cumulative loop.\<close>

definition group_trace ::
  "string \<Rightarrow> stats_dict \<times> (frame_tuple list \<rightharpoonup> traceback) \<Rightarrow> trace_tuple
     \<Rightarrow> py_error + stats_dict \<times> (frame_tuple list \<rightharpoonup> traceback)" where
  "group_trace key_type state trace =
     (case state of (stats, tracebacks) \<Rightarrow>
      case trace of (sz, trace_traceback) \<Rightarrow>
      case tracebacks trace_traceback of
        Some tb \<Rightarrow> Inr (accumulate stats tb sz, tracebacks)
      | None \<Rightarrow>
          (case derive_key key_type trace_traceback of
             Inl e \<Rightarrow> Inl e
           | Inr tb \<Rightarrow> Inr (accumulate stats tb sz, tracebacks(trace_traceback \<mapsto> tb))))"

fun group_traces ::
  "string \<Rightarrow> stats_dict \<times> (frame_tuple list \<rightharpoonup> traceback) \<Rightarrow> trace_tuple list
     \<Rightarrow> py_error + stats_dict \<times> (frame_tuple list \<rightharpoonup> traceback)" where
  "group_traces key_type state [] = Inr state"
| "group_traces key_type state (trace # rest) =
     (case group_trace key_type state trace of
        Inl e \<Rightarrow> Inl e
      | Inr state' \<Rightarrow> group_traces key_type state' rest)"

text \<open>The \<^verbatim>\<open>except KeyError\<close> branch of the cumulative loop: the key derived from one frame.\<close>

definition frame_key :: "string \<Rightarrow> frame_tuple \<Rightarrow> traceback" where
  "frame_key key_type fr =
     (if key_type = ''lineno'' then Traceback [fr]
      else Traceback [('''', fst (snd fr), 0, 0)])"

text \<open>One iteration of the inner loop of the cumulative mode.\<close>

definition group_frame ::
  "string \<Rightarrow> int \<Rightarrow> stats_dict \<times> (frame_tuple \<rightharpoonup> traceback) \<Rightarrow> frame_tuple
     \<Rightarrow> stats_dict \<times> (frame_tuple \<rightharpoonup> traceback)" where
  "group_frame key_type sz state fr =
     (case state of (stats, tracebacks) \<Rightarrow>
      case tracebacks fr of
        Some tb \<Rightarrow> (accumulate stats tb sz, tracebacks)
      | None \<Rightarrow>
          (let tb = frame_key key_type fr
           in (accumulate stats tb sz, tracebacks(fr \<mapsto> tb))))"

definition group_frames ::
  "string \<Rightarrow> stats_dict \<times> (frame_tuple \<rightharpoonup> traceback) \<Rightarrow> trace_tuple list
     \<Rightarrow> stats_dict \<times> (frame_tuple \<rightharpoonup> traceback)" where
  "group_frames key_type state trs =
     foldl (\<lambda>st trace. foldl (group_frame key_type (fst trace)) st (snd trace)) state trs"

text \<open>\<^verbatim>\<open>Snapshot._scale_heap_sample\<close>: the two early returns are modelled as written, the
  float arithmetic after them is the runtime's.\<close>

definition scale_heap_sample :: "runtime \<Rightarrow> int \<Rightarrow> statistic \<Rightarrow> py_error + statistic" where
  "scale_heap_sample rt rate stat =
     (if stat_count stat = 0 \<or> stat_size stat = 0 then Inr stat
      else if rate \<le> 1 then Inr stat
      else
        (case float_scale rt (stat_size stat) (stat_count stat) rate of
           None \<Rightarrow> Inl ArithmeticError
         | Some (sz, cnt) \<Rightarrow> Inr (stat\<lparr>stat_size := sz, stat_count := cnt\<rparr>)))"

text \<open>\<^verbatim>\<open>Snapshot._scale_heap_samples\<close>\<close>

fun scale_heap_samples :: "runtime \<Rightarrow> int \<Rightarrow> stats_dict \<Rightarrow> py_error + stats_dict" where
  "scale_heap_samples rt rate [] = Inr []"
| "scale_heap_samples rt rate ((tb, stat) # rest) =
     (case scale_heap_sample rt rate stat of
        Inl e \<Rightarrow> Inl e
      | Inr stat' \<Rightarrow>
          (case scale_heap_samples rt rate rest of
             Inl e \<Rightarrow> Inl e
           | Inr rest' \<Rightarrow> Inr ((tb, stat') # rest')))"

text \<open>The two loops of \<^verbatim>\<open>Snapshot._group_by\<close>, after the checks of the arguments.\<close>

definition aggregate :: "string \<Rightarrow> bool \<Rightarrow> trace_tuple list \<Rightarrow> py_error + stats_dict" where
  "aggregate key_type cumulative trs =
     (if \<not> cumulative then
        (case group_traces key_type ([], Map.empty) trs of
           Inl e \<Rightarrow> Inl e
         | Inr state \<Rightarrow> Inr (fst state))
      else Inr (fst (group_frames key_type ([], Map.empty) trs)))"

text \<open>\<^verbatim>\<open>Snapshot._group_by\<close>\<close>

definition group_by :: "runtime \<Rightarrow> string \<Rightarrow> bool \<Rightarrow> snapshot \<Rightarrow> py_error + stats_dict" where
  "group_by rt key_type cumulative self =
     (if key_type \<notin> set [''traceback'', ''filename'', ''lineno''] then Inl ValueError
      else if cumulative \<and> key_type \<notin> set [''lineno'', ''filename''] then Inl ValueError
      else
        (case aggregate key_type cumulative (traces self) of
           Inl e \<Rightarrow> Inl e
         | Inr stats \<Rightarrow> scale_heap_samples rt (sample_rate self) stats))"

text \<open>\<^verbatim>\<open>Snapshot.statistics\<close>\<close>

definition statistics :: "runtime \<Rightarrow> string \<Rightarrow> bool \<Rightarrow> snapshot \<Rightarrow> py_error + statistic list" where
  "statistics rt key_type cumulative self =
     (case group_by rt key_type cumulative self of
        Inl e \<Rightarrow> Inl e
      | Inr grouped \<Rightarrow> Inr (sort_reverse stat_sort_key (map snd grouped)))"

subsection \<open>Comparing two snapshots\<close>

text \<open>The first loop of \<^verbatim>\<open>_compare_grouped_stats\<close>: \<^verbatim>\<open>old_group.pop(traceback, None)\<close> removes
  the key from the old group.\<close>

fun compare_new ::
  "stats_dict \<Rightarrow> stats_dict \<Rightarrow> statistic_diff list \<Rightarrow> stats_dict \<times> statistic_diff list" where
  "compare_new old_group [] acc = (old_group, acc)"
| "compare_new old_group ((tb, stat) # rest) acc =
     (case map_of old_group tb of
        Some previous \<Rightarrow>
          compare_new (AList.delete tb old_group) rest
            (acc @ [StatisticDiff tb (stat_size stat) (stat_size stat - stat_size previous)
                      (stat_count stat) (stat_count stat - stat_count previous)])
      | None \<Rightarrow>
          compare_new old_group rest
            (acc @ [StatisticDiff tb (stat_size stat) (stat_size stat)
                      (stat_count stat) (stat_count stat)]))"

text \<open>\<^verbatim>\<open>_compare_grouped_stats\<close>: the second loop appends one entry per key left in the old
  group.\<close>

definition compare_grouped_stats :: "stats_dict \<Rightarrow> stats_dict \<Rightarrow> statistic_diff list" where
  "compare_grouped_stats old_group new_group =
     (case compare_new old_group new_group [] of
        (remaining, acc) \<Rightarrow>
          acc @ map (\<lambda>(tb, stat). StatisticDiff tb 0 (- stat_size stat) 0 (- stat_count stat))
                  remaining)"

text \<open>\<^verbatim>\<open>Snapshot.compare_to\<close>: the receiver is grouped first, then the old snapshot.\<close>

definition compare_to ::
  "runtime \<Rightarrow> snapshot \<Rightarrow> snapshot \<Rightarrow> string \<Rightarrow> bool \<Rightarrow> py_error + statistic_diff list" where
  "compare_to rt self old_snapshot key_type cumulative =
     (case group_by rt key_type cumulative self of
        Inl e \<Rightarrow> Inl e
      | Inr new_group \<Rightarrow>
          (case group_by rt key_type cumulative old_snapshot of
             Inl e \<Rightarrow> Inl e
           | Inr old_group \<Rightarrow>
               Inr (sort_reverse diff_sort_key (compare_grouped_stats old_group new_group))))"

subsection \<open>Calls with their effects\<close>

text \<open>
  The three public methods once more, now as transitions of a state, so that what a call
  does besides returning is part of the model. The state holds the Snapshot objects by
  address, which a method could assign to, and counts the items of \<^verbatim>\<open>self.traces._traces\<close>
  that the loops of the aggregation and of the filtering have taken so far. Each function
  follows the source statement by statement; a loop iteration counts its trace before it
  works on it.
\<close>

record call_state =
  objects :: "nat \<Rightarrow> snapshot"
  traces_read :: nat

definition read_trace :: "call_state \<Rightarrow> call_state" where
  "read_trace \<sigma> = \<sigma>\<lparr>traces_read := Suc (traces_read \<sigma>)\<rparr>"

text \<open>The non-cumulative loop of \<^verbatim>\<open>_group_by\<close>.\<close>

fun group_traces_st ::
  "string \<Rightarrow> stats_dict \<times> (frame_tuple list \<rightharpoonup> traceback) \<Rightarrow> trace_tuple list \<Rightarrow> call_state
     \<Rightarrow> (py_error + stats_dict \<times> (frame_tuple list \<rightharpoonup> traceback)) \<times> call_state" where
  "group_traces_st key_type state [] \<sigma> = (Inr state, \<sigma>)"
| "group_traces_st key_type state (trace # rest) \<sigma> =
     (case group_trace key_type state trace of
        Inl e \<Rightarrow> (Inl e, read_trace \<sigma>)
      | Inr state' \<Rightarrow> group_traces_st key_type state' rest (read_trace \<sigma>))"

text \<open>The cumulative loop of \<^verbatim>\<open>_group_by\<close>.\<close>

fun group_frames_st ::
  "string \<Rightarrow> stats_dict \<times> (frame_tuple \<rightharpoonup> traceback) \<Rightarrow> trace_tuple list \<Rightarrow> call_state
     \<Rightarrow> (stats_dict \<times> (frame_tuple \<rightharpoonup> traceback)) \<times> call_state" where
  "group_frames_st key_type state [] \<sigma> = (state, \<sigma>)"
| "group_frames_st key_type state (trace # rest) \<sigma> =
     group_frames_st key_type (foldl (group_frame key_type (fst trace)) state (snd trace)) rest
       (read_trace \<sigma>)"

text \<open>\<^verbatim>\<open>self._group_by(key_type, cumulative)\<close> for the Snapshot at the address \<open>this\<close>: the two
  checks, then one of the two loops over \<^verbatim>\<open>self.traces._traces\<close>, then the scaling.\<close>

definition group_by_st ::
  "runtime \<Rightarrow> nat \<Rightarrow> string \<Rightarrow> bool \<Rightarrow> call_state \<Rightarrow> (py_error + stats_dict) \<times> call_state" where
  "group_by_st rt this key_type cumulative \<sigma> =
     (if key_type \<notin> set [''traceback'', ''filename'', ''lineno''] then (Inl ValueError, \<sigma>)
      else if cumulative \<and> key_type \<notin> set [''lineno'', ''filename''] then (Inl ValueError, \<sigma>)
      else if \<not> cumulative then
        (case group_traces_st key_type ([], Map.empty) (traces (objects \<sigma> this)) \<sigma> of
           (Inl e, \<sigma>') \<Rightarrow> (Inl e, \<sigma>')
         | (Inr state, \<sigma>') \<Rightarrow>
             (scale_heap_samples rt (sample_rate (objects \<sigma>' this)) (fst state), \<sigma>'))
      else
        (case group_frames_st key_type ([], Map.empty) (traces (objects \<sigma> this)) \<sigma> of
           (state, \<sigma>') \<Rightarrow>
             (scale_heap_samples rt (sample_rate (objects \<sigma>' this)) (fst state), \<sigma>')))"

definition statistics_st ::
  "runtime \<Rightarrow> nat \<Rightarrow> string \<Rightarrow> bool \<Rightarrow> call_state \<Rightarrow> (py_error + statistic list) \<times> call_state" where
  "statistics_st rt this key_type cumulative \<sigma> =
     (case group_by_st rt this key_type cumulative \<sigma> of
        (Inl e, \<sigma>') \<Rightarrow> (Inl e, \<sigma>')
      | (Inr grouped, \<sigma>') \<Rightarrow> (Inr (sort_reverse stat_sort_key (map snd grouped)), \<sigma>'))"

text \<open>\<^verbatim>\<open>self.compare_to(old_snapshot, key_type, cumulative)\<close> with the receiver at \<open>this\<close> and
  the old snapshot at \<open>old\<close>.\<close>

definition compare_to_st ::
  "runtime \<Rightarrow> nat \<Rightarrow> nat \<Rightarrow> string \<Rightarrow> bool \<Rightarrow> call_state
     \<Rightarrow> (py_error + statistic_diff list) \<times> call_state" where
  "compare_to_st rt this old key_type cumulative \<sigma> =
     (case group_by_st rt this key_type cumulative \<sigma> of
        (Inl e, \<sigma>1) \<Rightarrow> (Inl e, \<sigma>1)
      | (Inr new_group, \<sigma>1) \<Rightarrow>
          (case group_by_st rt old key_type cumulative \<sigma>1 of
             (Inl e, \<sigma>2) \<Rightarrow> (Inl e, \<sigma>2)
           | (Inr old_group, \<sigma>2) \<Rightarrow>
               (Inr (sort_reverse diff_sort_key (compare_grouped_stats old_group new_group)),
                \<sigma>2)))"

text \<open>The list comprehension of \<^verbatim>\<open>filter_traces\<close>.\<close>

fun filter_raising_st ::
  "(trace_tuple \<Rightarrow> py_error + bool) \<Rightarrow> trace_tuple list \<Rightarrow> call_state
     \<Rightarrow> (py_error + trace_tuple list) \<times> call_state" where
  "filter_raising_st p [] \<sigma> = (Inr [], \<sigma>)"
| "filter_raising_st p (x # xs) \<sigma> =
     (case p x of
        Inl e \<Rightarrow> (Inl e, read_trace \<sigma>)
      | Inr keep \<Rightarrow>
          (case filter_raising_st p xs (read_trace \<sigma>) of
             (Inl e, \<sigma>') \<Rightarrow> (Inl e, \<sigma>')
           | (Inr ys, \<sigma>') \<Rightarrow> (Inr (if keep then x # ys else ys), \<sigma>')))"

text \<open>\<^verbatim>\<open>self.filter_traces(filters)\<close>: the new Snapshot is the value returned, the receiver is
  only read.\<close>

definition filter_traces_st ::
  "runtime \<Rightarrow> nat \<Rightarrow> trace_filter py_argument \<Rightarrow> call_state \<Rightarrow> (py_error + snapshot) \<times> call_state" where
  "filter_traces_st rt this filters \<sigma> =
     (case filters of
        NotIterable \<Rightarrow> (Inl TypeError, \<sigma>)
      | IterableOf fs \<Rightarrow>
          (if fs \<noteq> [] then
             (let include_filters = filter inclusive fs;
                  exclude_filters = filter (\<lambda>f. \<not> inclusive f) fs
              in case filter_raising_st (filter_trace rt include_filters exclude_filters)
                        (traces (objects \<sigma> this)) \<sigma> of
                   (Inl e, \<sigma>') \<Rightarrow> (Inl e, \<sigma>')
                 | (Inr new_traces, \<sigma>') \<Rightarrow>
                     (Inr (Snapshot new_traces (traceback_limit (objects \<sigma>' this))
                             (sample_rate (objects \<sigma>' this))), \<sigma>'))
           else
             (Inr (Snapshot (traces (objects \<sigma> this)) (traceback_limit (objects \<sigma> this))
                     (sample_rate (objects \<sigma> this))), \<sigma>)))"

section \<open>Traceback construction\<close>

text \<open>
  Claim C10. The constructor reverses its input: for a frame sequence \<open>fs\<close> of length \<open>n\<close>,
  the length of \<open>Traceback fs\<close> is \<open>n\<close>, and for every index \<open>0 \<le> i < n\<close> the item at \<open>i\<close>
  is the Frame built from \<open>fs[n - 1 - i]\<close>.
\<close>

theorem Traceback_reverses:
  "traceback_len (Traceback fs) = length fs \<and>
   (\<forall>i. 0 \<le> i \<and> i < int (length fs) \<longrightarrow>
      traceback_getitem (Traceback fs) i = Inr (Frame (fs ! (length fs - 1 - nat i))))"
proof -
  have "rev fs ! nat i = fs ! (length fs - 1 - nat i)"
    if "0 \<le> i" "i < int (length fs)" for i
  proof -
    from that have "nat i < length fs" by linarith
    then have "rev fs ! nat i = fs ! (length fs - Suc (nat i))"
      by (rule rev_nth)
    then show ?thesis by simp
  qed
  then show ?thesis
    by (simp add: traceback_len_def Traceback_def traceback_getitem_def tuple_getitem_def)
qed

theorem Traceback_reverses_witness:
  "traceback_len (Traceback [(''main'', ''a.py'', 1, 3), (''f'', ''b.py'', 5, 7)]) = 2 \<and>
   traceback_getitem (Traceback [(''main'', ''a.py'', 1, 3), (''f'', ''b.py'', 5, 7)]) 0
     = Inr (Frame (''f'', ''b.py'', 5, 7)) \<and>
   traceback_getitem (Traceback [(''main'', ''a.py'', 1, 3), (''f'', ''b.py'', 5, 7)]) 1
     = Inr (Frame (''main'', ''a.py'', 1, 3))"
  using Traceback_reverses [of "[(''main'', ''a.py'', 1, 3), (''f'', ''b.py'', 5, 7)]"]
  by simp

section \<open>Facts about the grouping loops\<close>

subsection \<open>Accumulating into the statistics dictionary\<close>

lemma sum_list_update:
  fixes f :: "'v \<Rightarrow> int"
  shows "map_of al k = Some v \<Longrightarrow>
    (\<Sum>p\<leftarrow>AList.update k v' al. f (snd p)) = (\<Sum>p\<leftarrow>al. f (snd p)) - f v + f v'"
  by (induction al) (auto split: if_splits)

lemma accumulate_size:
  "(\<Sum>p\<leftarrow>accumulate stats tb sz. stat_size (snd p)) = (\<Sum>p\<leftarrow>stats. stat_size (snd p)) + sz"
  by (simp add: accumulate_def Statistic_def sum_list_update split: option.split)

lemma accumulate_count:
  "(\<Sum>p\<leftarrow>accumulate stats tb sz. stat_count (snd p)) = (\<Sum>p\<leftarrow>stats. stat_count (snd p)) + 1"
  by (simp add: accumulate_def Statistic_def sum_list_update split: option.split)

lemma accumulate_distinct:
  "distinct (map fst stats) \<Longrightarrow> distinct (map fst (accumulate stats tb sz))"
  by (auto simp: accumulate_def distinct_update map_of_eq_None_iff split: option.split)

subsection \<open>The non-cumulative loop\<close>

lemma group_trace_sums:
  assumes "group_trace key_type (stats, memo) trace = Inr (stats', memo')"
  shows "(\<Sum>p\<leftarrow>stats'. stat_size (snd p)) = (\<Sum>p\<leftarrow>stats. stat_size (snd p)) + fst trace"
    and "(\<Sum>p\<leftarrow>stats'. stat_count (snd p)) = (\<Sum>p\<leftarrow>stats. stat_count (snd p)) + 1"
    and "distinct (map fst stats) \<Longrightarrow> distinct (map fst stats')"
  using assms
  by (auto simp: group_trace_def accumulate_size accumulate_count accumulate_distinct
      split: prod.splits option.splits sum.splits)

lemma group_traces_sums:
  assumes "group_traces key_type (stats, memo) trs = Inr (stats', memo')"
  shows "(\<Sum>p\<leftarrow>stats'. stat_size (snd p)) = (\<Sum>p\<leftarrow>stats. stat_size (snd p)) + (\<Sum>t\<leftarrow>trs. fst t)
    \<and> (\<Sum>p\<leftarrow>stats'. stat_count (snd p)) = (\<Sum>p\<leftarrow>stats. stat_count (snd p)) + int (length trs)
    \<and> (distinct (map fst stats) \<longrightarrow> distinct (map fst stats'))"
  using assms
proof (induction trs arbitrary: stats memo)
  case Nil
  then show ?case by simp
next
  case (Cons trace rest)
  from Cons.prems obtain st1 m1 where
    step: "group_trace key_type (stats, memo) trace = Inr (st1, m1)"
    and rest: "group_traces key_type (st1, m1) rest = Inr (stats', memo')"
    by (auto split: sum.splits)
  from Cons.IH [OF rest] group_trace_sums [OF step] show ?case by simp
qed

lemma derive_key_traceback: "derive_key ''traceback'' tb = Inr (Traceback tb)"
  by (simp add: derive_key_def)

lemma derive_key_lineno: "derive_key ''lineno'' tb = Inr (Traceback (take 1 tb))"
  by (simp add: derive_key_def)

text \<open>The loop runs to its end when no key derivation raises.\<close>

lemma group_traces_total:
  assumes "\<And>tb. \<exists>k. derive_key key_type tb = Inr k"
  shows "\<exists>st. group_traces key_type state trs = Inr st"
proof (induction trs arbitrary: state)
  case Nil
  then show ?case by simp
next
  case (Cons trace rest)
  obtain stats memo where state: "state = (stats, memo)" by (cases state)
  obtain sz tb where trace: "trace = (sz, tb)" by (cases trace)
  from assms obtain k where "derive_key key_type tb = Inr k" by blast
  then have "\<exists>st1. group_trace key_type state trace = Inr st1"
    by (cases "memo tb") (simp_all add: group_trace_def state trace)
  then obtain st1 where "group_trace key_type state trace = Inr st1" ..
  with Cons.IH show ?case by simp
qed

subsection \<open>Scaling and ranking\<close>

lemma scale_heap_samples_identity:
  "rate \<le> 1 \<Longrightarrow> scale_heap_samples rt rate stats = Inr stats"
  by (induction stats) (auto simp: scale_heap_sample_def)

lemma mset_sort_reverse: "mset (sort_reverse k xs) = mset xs"
  by (simp add: sort_reverse_def)

lemma sum_list_sort_reverse:
  fixes f :: "'a \<Rightarrow> int"
  shows "(\<Sum>x\<leftarrow>sort_reverse k xs. f x) = (\<Sum>x\<leftarrow>xs. f x)"
proof -
  have "sum_mset (image_mset f (mset (sort_reverse k xs))) = sum_mset (image_mset f (mset xs))"
    by (simp add: mset_sort_reverse)
  then show ?thesis
    by (simp only: mset_map [symmetric] sum_mset_sum_list)
qed

section \<open>Grouping conservation\<close>

text \<open>
  Claim C1. For every Snapshot with \<open>sample_rate \<le> 1\<close>, \<^verbatim>\<open>statistics("traceback")\<close> (not
  cumulative) returns a list whose \<open>size\<close> fields add up to the sum of the sizes of the raw
  traces and whose \<open>count\<close> fields add up to the number of raw traces.
\<close>

theorem grouping_conservation:
  assumes "sample_rate s \<le> 1"
  shows "\<exists>stats. statistics rt ''traceback'' False s = Inr stats \<and>
           (\<Sum>st\<leftarrow>stats. stat_size st) = (\<Sum>t\<leftarrow>traces s. fst t) \<and>
           (\<Sum>st\<leftarrow>stats. stat_count st) = int (length (traces s))"
proof -
  obtain grouped memo where
    loop: "group_traces ''traceback'' ([], Map.empty) (traces s) = Inr (grouped, memo)"
    using group_traces_total [of "''traceback''" "([], Map.empty)" "traces s"]
    by (auto simp: derive_key_traceback)
  from group_traces_sums [OF loop]
  have sums: "(\<Sum>p\<leftarrow>grouped. stat_size (snd p)) = (\<Sum>t\<leftarrow>traces s. fst t)"
    "(\<Sum>p\<leftarrow>grouped. stat_count (snd p)) = int (length (traces s))"
    by simp_all
  have "statistics rt ''traceback'' False s = Inr (sort_reverse stat_sort_key (map snd grouped))"
    using assms loop
    by (simp add: statistics_def group_by_def aggregate_def scale_heap_samples_identity)
  moreover have "(\<Sum>st\<leftarrow>map snd grouped. stat_size st) = (\<Sum>t\<leftarrow>traces s. fst t)"
    using sums(1) by (simp add: comp_def)
  moreover have "(\<Sum>st\<leftarrow>map snd grouped. stat_count st) = int (length (traces s))"
    using sums(2) by (simp add: comp_def)
  ultimately show ?thesis
    by (simp add: sum_list_sort_reverse del: map_map)
qed

text \<open>The witness is the snapshot of the specification's concrete scenario: two traces of
  sizes 100 and 50 with one traceback, one trace of size 30 with another.\<close>

theorem grouping_conservation_witness:
  "sample_rate (Snapshot [(100, [(''f'', ''a.py'', 1, 10), (''g'', ''a.py'', 5, 20)]),
                          (50, [(''f'', ''a.py'', 1, 10), (''g'', ''a.py'', 5, 20)]),
                          (30, [(''h'', ''b.py'', 1, 1)])] 25 0) \<le> 1 \<and>
   (\<exists>stats. statistics posix_literal ''traceback'' False
              (Snapshot [(100, [(''f'', ''a.py'', 1, 10), (''g'', ''a.py'', 5, 20)]),
                         (50, [(''f'', ''a.py'', 1, 10), (''g'', ''a.py'', 5, 20)]),
                         (30, [(''h'', ''b.py'', 1, 1)])] 25 0) = Inr stats \<and>
            (\<Sum>st\<leftarrow>stats. stat_size st) = 180 \<and> (\<Sum>st\<leftarrow>stats. stat_count st) = 3)"
  using grouping_conservation
    [of "Snapshot [(100, [(''f'', ''a.py'', 1, 10), (''g'', ''a.py'', 5, 20)]),
                   (50, [(''f'', ''a.py'', 1, 10), (''g'', ''a.py'', 5, 20)]),
                   (30, [(''h'', ''b.py'', 1, 1)])] 25 0" posix_literal]
  by (simp add: Snapshot_def)

subsection \<open>The cumulative loop\<close>

lemma group_frame_count:
  "(\<Sum>p\<leftarrow>fst (group_frame key_type sz state fr). stat_count (snd p))
     = (\<Sum>p\<leftarrow>fst state. stat_count (snd p)) + 1"
  by (cases state) (simp add: group_frame_def accumulate_count Let_def split: option.split)

lemma foldl_group_frame_count:
  "(\<Sum>p\<leftarrow>fst (foldl (group_frame key_type sz) state frs). stat_count (snd p))
     = (\<Sum>p\<leftarrow>fst state. stat_count (snd p)) + int (length frs)"
  by (induction frs arbitrary: state) (simp_all add: group_frame_count)

lemma group_frames_count:
  "(\<Sum>p\<leftarrow>fst (group_frames key_type state trs). stat_count (snd p))
     = (\<Sum>p\<leftarrow>fst state. stat_count (snd p)) + (\<Sum>t\<leftarrow>trs. int (length (snd t)))"
  unfolding group_frames_def
  by (induction trs arbitrary: state) (simp_all add: foldl_group_frame_count)

lemma depth_sum:
  assumes "\<forall>t\<in>set trs. snd t \<noteq> []"
  shows "int (length trs) \<le> (\<Sum>t\<leftarrow>trs. int (length (snd t))) \<and>
         ((\<Sum>t\<leftarrow>trs. int (length (snd t))) = int (length trs)
            \<longleftrightarrow> (\<forall>t\<in>set trs. length (snd t) = 1))"
  using assms
proof (induction trs)
  case Nil
  then show ?case by simp
next
  case (Cons t trs)
  then have "1 \<le> length (snd t)" by (cases "snd t") simp_all
  with Cons show ?case by auto
qed

section \<open>Cumulative and plain counts\<close>

text \<open>
  Claim C7, amended. For every Snapshot with \<open>sample_rate \<le> 1\<close> in which every trace has a
  traceback of at least one frame, the \<open>count\<close> fields of \<^verbatim>\<open>statistics("lineno",
  cumulative=True)\<close> add up to at least the sum of the \<open>count\<close> fields of
  \<^verbatim>\<open>statistics("lineno", cumulative=False)\<close>, and the two sums are equal exactly when every
  traceback has depth 1. The cumulative sum is the total number of frames, the plain sum
  the number of traces.
\<close>

theorem cumulative_superset:
  assumes "sample_rate s \<le> 1" and "\<forall>t\<in>set (traces s). snd t \<noteq> []"
  shows "\<exists>cum plain.
           statistics rt ''lineno'' True s = Inr cum \<and>
           statistics rt ''lineno'' False s = Inr plain \<and>
           (\<Sum>st\<leftarrow>plain. stat_count st) \<le> (\<Sum>st\<leftarrow>cum. stat_count st) \<and>
           ((\<Sum>st\<leftarrow>cum. stat_count st) = (\<Sum>st\<leftarrow>plain. stat_count st)
              \<longleftrightarrow> (\<forall>t\<in>set (traces s). length (snd t) = 1))"
proof -
  define cum where "cum = fst (group_frames ''lineno'' ([], Map.empty) (traces s))"
  have cum_stats: "statistics rt ''lineno'' True s = Inr (sort_reverse stat_sort_key (map snd cum))"
    using assms(1)
    by (simp add: statistics_def group_by_def aggregate_def scale_heap_samples_identity cum_def)
  have "(\<Sum>p\<leftarrow>cum. stat_count (snd p)) = (\<Sum>t\<leftarrow>traces s. int (length (snd t)))"
    unfolding cum_def by (simp add: group_frames_count)
  then have cum_count: "(\<Sum>st\<leftarrow>map snd cum. stat_count st) = (\<Sum>t\<leftarrow>traces s. int (length (snd t)))"
    by (simp add: comp_def)
  obtain plain memo where
    loop: "group_traces ''lineno'' ([], Map.empty) (traces s) = Inr (plain, memo)"
    using group_traces_total [of "''lineno''" "([], Map.empty)" "traces s"]
    by (auto simp: derive_key_lineno)
  have plain_stats:
    "statistics rt ''lineno'' False s = Inr (sort_reverse stat_sort_key (map snd plain))"
    using assms(1) loop
    by (simp add: statistics_def group_by_def aggregate_def scale_heap_samples_identity)
  from group_traces_sums [OF loop]
  have "(\<Sum>p\<leftarrow>plain. stat_count (snd p)) = int (length (traces s))" by simp
  then have plain_count: "(\<Sum>st\<leftarrow>map snd plain. stat_count st) = int (length (traces s))"
    by (simp add: comp_def)
  from depth_sum [OF assms(2)] cum_stats plain_stats cum_count plain_count
  show ?thesis
    by (simp add: sum_list_sort_reverse del: map_map)
qed

text \<open>
  As the claim is stated, for every Snapshot, it fails on a trace without frames: the
  cumulative loop visits no frame of it, the plain loop counts it once.
\<close>

theorem cumulative_superset_counterexample:
  "sample_rate (Snapshot [(5, [])] 25 0) \<le> 1 \<and>
   statistics posix_literal ''lineno'' True (Snapshot [(5, [])] 25 0) = Inr [] \<and>
   statistics posix_literal ''lineno'' False (Snapshot [(5, [])] 25 0) = Inr [Statistic [] 5 1] \<and>
   \<not> (\<Sum>st\<leftarrow>[Statistic [] 5 1]. stat_count st) \<le> (\<Sum>st\<leftarrow>[]. stat_count st)"
  by (simp add: Snapshot_def statistics_def group_by_def aggregate_def group_frames_def
      group_trace_def derive_key_def Traceback_def accumulate_def Statistic_def
      scale_heap_sample_def sort_reverse_def)

theorem cumulative_superset_witness:
  "sample_rate (Snapshot [(100, [(''f'', ''a.py'', 1, 10), (''g'', ''a.py'', 5, 20)]),
                          (30, [(''h'', ''b.py'', 1, 1)])] 25 0) \<le> 1 \<and>
   (\<exists>cum plain.
      statistics posix_literal ''lineno'' True
        (Snapshot [(100, [(''f'', ''a.py'', 1, 10), (''g'', ''a.py'', 5, 20)]),
                   (30, [(''h'', ''b.py'', 1, 1)])] 25 0) = Inr cum \<and>
      statistics posix_literal ''lineno'' False
        (Snapshot [(100, [(''f'', ''a.py'', 1, 10), (''g'', ''a.py'', 5, 20)]),
                   (30, [(''h'', ''b.py'', 1, 1)])] 25 0) = Inr plain \<and>
      (\<Sum>st\<leftarrow>plain. stat_count st) < (\<Sum>st\<leftarrow>cum. stat_count st))"
  using cumulative_superset
    [of "Snapshot [(100, [(''f'', ''a.py'', 1, 10), (''g'', ''a.py'', 5, 20)]),
                   (30, [(''h'', ''b.py'', 1, 1)])] 25 0" posix_literal]
  by (simp add: Snapshot_def) force

section \<open>Facts about filtering\<close>

lemma tuple_getitem_0_Cons: "tuple_getitem (x # xs) 0 = Inr x"
  by (simp add: tuple_getitem_def)

lemma tuple_getitem_0_Nil: "tuple_getitem [] 0 = Inl IndexError"
  by (simp add: tuple_getitem_def)

lemma tuple_getitem_error: "tuple_getitem xs i = Inl e \<Longrightarrow> e = IndexError"
  by (auto simp: tuple_getitem_def split: if_splits)

lemma match_traceback_error: "match_traceback rt f tb = Inl e \<Longrightarrow> e = IndexError"
  by (auto simp: match_traceback_def split: if_splits sum.splits dest: tuple_getitem_error)

lemma match_traceback_nonempty: "tb \<noteq> [] \<Longrightarrow> \<exists>b. match_traceback rt f tb = Inr b"
  by (cases tb) (auto simp: match_traceback_def tuple_getitem_0_Cons split: prod.splits)

lemma match_traceback_all_frames: "all_frames f \<Longrightarrow> \<exists>b. match_traceback rt f tb = Inr b"
  by (simp add: match_traceback_def)

lemma match_traceback_single_empty:
  "\<not> all_frames f \<Longrightarrow> match_traceback rt f [] = Inl IndexError"
  by (simp add: match_traceback_def tuple_getitem_0_Nil)

lemma any_raising_error: "any_raising p xs = Inl e \<Longrightarrow> \<exists>x\<in>set xs. p x = Inl e"
  by (induction xs) (auto split: sum.splits bool.splits)

lemma any_raising_total:
  "\<forall>x\<in>set xs. \<exists>b. p x = Inr b \<Longrightarrow> \<exists>b. any_raising p xs = Inr b"
  by (induction xs) (auto split: sum.splits bool.splits)

lemma filter_raising_error: "filter_raising p xs = Inl e \<Longrightarrow> \<exists>x\<in>set xs. p x = Inl e"
  by (induction xs) (auto split: sum.splits)

lemma filter_raising_pure:
  "\<forall>x\<in>set xs. p x = Inr (q x) \<Longrightarrow> filter_raising p xs = Inr (filter q xs)"
  by (induction xs) auto

lemma filter_raising_first_error:
  assumes "\<forall>x\<in>set xs. p x = Inl e \<or> (\<exists>b. p x = Inr b)" and "\<exists>x\<in>set xs. p x = Inl e"
  shows "filter_raising p xs = Inl e"
  using assms
proof (induction xs)
  case Nil
  then show ?case by simp
next
  case (Cons x xs)
  show ?case
  proof (cases "p x")
    case (Inl e')
    with Cons.prems(1) show ?thesis by auto
  next
    case (Inr b)
    with Cons.prems have "\<exists>y\<in>set xs. p y = Inl e" by auto
    with Cons.IH Cons.prems(1) have "filter_raising p xs = Inl e" by simp
    with Inr show ?thesis by simp
  qed
qed

lemma not_raising_error: "not_raising r = Inl e \<longleftrightarrow> r = Inl e"
  by (cases r) (simp_all add: not_raising_def)

lemma filter_trace_error:
  assumes "filter_trace rt incl excl trace = Inl e"
  shows "e = IndexError"
proof -
  let ?m = "\<lambda>f. match_traceback rt f (snd trace)"
  from assms have "any_raising ?m incl = Inl e \<or> any_raising (\<lambda>f. not_raising (?m f)) excl = Inl e"
    by (auto simp: filter_trace_def Let_def not_raising_error
        split: if_splits sum.splits bool.splits)
  then obtain f where "?m f = Inl e"
    by (auto dest!: any_raising_error simp: not_raising_error)
  then show ?thesis by (rule match_traceback_error)
qed

text \<open>One inclusive filter keeps a trace iff the filter selects it.\<close>

lemma filter_trace_include_one:
  "filter_trace rt [f] [] trace = match_traceback rt f (snd trace)"
proof (cases "match_traceback rt f (snd trace)")
  case (Inl e)
  then show ?thesis by (simp add: filter_trace_def not_raising_def)
next
  case (Inr b)
  then show ?thesis by (cases b) (simp_all add: filter_trace_def not_raising_def)
qed

lemma filter_trace_exclude_one:
  "filter_trace rt [] [f] trace = match_traceback rt f (snd trace)"
proof (cases "match_traceback rt f (snd trace)")
  case (Inl e)
  then show ?thesis by (simp add: filter_trace_def not_raising_def)
next
  case (Inr b)
  then show ?thesis by (cases b) (simp_all add: filter_trace_def not_raising_def)
qed

lemma Filter_sel:
  "inclusive (Filter rt incl pat ln af) = incl"
  "all_frames (Filter rt incl pat ln af) = af"
  by (simp_all add: Filter_def)

text \<open>The private match reads the pattern and the line number of a filter only.\<close>

lemma match_frame_private_inclusive:
  "match_frame_private rt (Filter rt False pat ln af) fname l
     = match_frame_private rt (Filter rt True pat ln af) fname l"
  by (simp add: match_frame_private_def Filter_def)

lemma match_traceback_complement:
  "match_traceback rt (Filter rt False pat ln af) tb
     = not_raising (match_traceback rt (Filter rt True pat ln af) tb)"
  by (simp add: match_traceback_def match_frame_def match_frame_private_inclusive Filter_sel
      not_raising_def split: sum.splits prod.splits)

text \<open>What a single-frame filter tests: item 0 of the raw frame tuple, which is the last item
  of the Traceback built from that tuple.\<close>

lemma single_frame_filter_tests_raw_first:
  assumes "\<not> all_frames f"
  shows "match_traceback rt f (fr # rest)
           = Inr (match_frame rt f (fst (snd fr)) (snd (snd (snd fr))))"
    and "traceback_getitem (Traceback (fr # rest)) (int (length rest)) = Inr (Frame fr)"
  using assms
  by (simp_all add: match_traceback_def tuple_getitem_0_Cons traceback_getitem_def
      tuple_getitem_def Traceback_def nth_append split: prod.splits)

section \<open>Kinds of errors\<close>

lemma derive_key_error: "derive_key key_type tb = Inl e \<Longrightarrow> e = IndexError"
  by (auto simp: derive_key_def split: if_splits sum.splits dest: tuple_getitem_error)

lemma group_trace_error: "group_trace key_type state trace = Inl e \<Longrightarrow> e = IndexError"
  by (auto simp: group_trace_def split: prod.splits option.splits sum.splits
      dest: derive_key_error)

lemma group_traces_error: "group_traces key_type state trs = Inl e \<Longrightarrow> e = IndexError"
  by (induction trs arbitrary: state) (auto split: sum.splits dest: group_trace_error)

lemma aggregate_error: "aggregate key_type cumulative trs = Inl e \<Longrightarrow> e = IndexError"
  by (auto simp: aggregate_def split: if_splits sum.splits dest: group_traces_error)

lemma scale_heap_sample_error: "scale_heap_sample rt rate stat = Inl e \<Longrightarrow> e = ArithmeticError"
  by (auto simp: scale_heap_sample_def split: if_splits option.splits)

lemma scale_heap_samples_error: "scale_heap_samples rt rate stats = Inl e \<Longrightarrow> e = ArithmeticError"
  by (induction stats) (auto split: sum.splits dest: scale_heap_sample_error)

lemma group_by_ValueError:
  "group_by rt key_type cumulative s = Inl ValueError \<longleftrightarrow>
     key_type \<notin> {''traceback'', ''filename'', ''lineno''} \<or> (cumulative \<and> key_type = ''traceback'')"
  by (auto simp: group_by_def split: sum.splits
      dest: aggregate_error scale_heap_samples_error)

lemma statistics_error:
  "statistics rt key_type cumulative s = Inl e \<longleftrightarrow> group_by rt key_type cumulative s = Inl e"
  by (simp add: statistics_def split: sum.splits)

lemma filter_traces_error:
  "filter_traces rt (IterableOf fs) s = Inl e \<Longrightarrow> e = IndexError"
  by (auto simp: filter_traces_def Let_def split: if_splits sum.splits
      dest!: filter_raising_error dest: filter_trace_error)

section \<open>Inclusive and exclusive filters\<close>

text \<open>
  Claim C6. For every Snapshot whose traces all have a traceback of at least one frame and
  for every pattern, line number and \<open>all_frames\<close> flag, filtering with the single inclusive
  filter and filtering with the single exclusive filter built from them both succeed, the
  two resulting trace multisets are disjoint, and their union is the trace multiset of the
  Snapshot.
\<close>

theorem inclusive_exclusive_partition:
  assumes "\<forall>t\<in>set (traces s). snd t \<noteq> []"
  shows "\<exists>a b.
           filter_traces rt (IterableOf [Filter rt True pat ln af]) s = Inr a \<and>
           filter_traces rt (IterableOf [Filter rt False pat ln af]) s = Inr b \<and>
           mset (traces a) \<inter># mset (traces b) = {#} \<and>
           mset (traces a) + mset (traces b) = mset (traces s)"
proof -
  let ?incl = "Filter rt True pat ln af" and ?excl = "Filter rt False pat ln af"
  define q where "q t \<longleftrightarrow> match_traceback rt ?incl (snd t) = Inr True" for t :: trace_tuple
  have incl: "filter_trace rt [?incl] [] t = Inr (q t)"
    and excl: "filter_trace rt [] [?excl] t = Inr (\<not> q t)" if "t \<in> set (traces s)" for t
  proof -
    from that assms have "snd t \<noteq> []" by blast
    then obtain b where b: "match_traceback rt ?incl (snd t) = Inr b"
      using match_traceback_nonempty by blast
    then show "filter_trace rt [?incl] [] t = Inr (q t)"
      by (simp add: filter_trace_include_one q_def)
    from b show "filter_trace rt [] [?excl] t = Inr (\<not> q t)"
      by (simp add: filter_trace_exclude_one match_traceback_complement not_raising_def q_def)
  qed
  have a: "filter_traces rt (IterableOf [?incl]) s
             = Inr (Snapshot (filter q (traces s)) (traceback_limit s) (sample_rate s))"
    using filter_raising_pure [of "traces s" "filter_trace rt [?incl] []" q] incl
    by (simp add: filter_traces_def Filter_def)
  have b: "filter_traces rt (IterableOf [?excl]) s
             = Inr (Snapshot (filter (\<lambda>t. \<not> q t) (traces s)) (traceback_limit s) (sample_rate s))"
    using filter_raising_pure [of "traces s" "filter_trace rt [] [?excl]" "\<lambda>t. \<not> q t"] excl
    by (simp add: filter_traces_def Filter_def)
  have "mset (filter q (traces s)) \<inter># mset (filter (\<lambda>t. \<not> q t) (traces s)) = {#}"
    by (rule multiset_eqI) (simp add: count_mset count_list_0_iff)
  moreover have "mset (filter q (traces s)) + mset (filter (\<lambda>t. \<not> q t) (traces s)) = mset (traces s)"
    by simp
  ultimately show ?thesis
    using a b by (simp add: Snapshot_def)
qed

theorem inclusive_exclusive_partition_witness:
  "\<exists>a b.
     filter_traces posix_literal (IterableOf [Filter posix_literal True ''a.py'' None False])
       (Snapshot [(100, [(''f'', ''a.py'', 1, 10), (''g'', ''a.py'', 5, 20)]),
                  (30, [(''h'', ''b.py'', 1, 1)])] 25 0) = Inr a \<and>
     filter_traces posix_literal (IterableOf [Filter posix_literal False ''a.py'' None False])
       (Snapshot [(100, [(''f'', ''a.py'', 1, 10), (''g'', ''a.py'', 5, 20)]),
                  (30, [(''h'', ''b.py'', 1, 1)])] 25 0) = Inr b \<and>
     mset (traces a) \<inter># mset (traces b) = {#} \<and>
     mset (traces a) + mset (traces b)
       = {#(100, [(''f'', ''a.py'', 1, 10), (''g'', ''a.py'', 5, 20)]),
           (30, [(''h'', ''b.py'', 1, 1)])#}"
  using inclusive_exclusive_partition
    [of "Snapshot [(100, [(''f'', ''a.py'', 1, 10), (''g'', ''a.py'', 5, 20)]),
                   (30, [(''h'', ''b.py'', 1, 1)])] 25 0"
        posix_literal "''a.py''" None False]
  by (simp add: Snapshot_def)

section \<open>Invalid arguments\<close>

lemma objects_read_trace: "objects (read_trace \<sigma>) = objects \<sigma>"
  by (simp add: read_trace_def)

text \<open>Each transition returns what the function of the receiver returns, and leaves every
  object as it was.\<close>

lemma group_traces_st_run:
  "\<exists>\<sigma>'. group_traces_st key_type state trs \<sigma> = (group_traces key_type state trs, \<sigma>')
        \<and> objects \<sigma>' = objects \<sigma>"
proof (induction trs arbitrary: state \<sigma>)
  case Nil
  then show ?case by simp
next
  case (Cons trace rest)
  show ?case
  proof (cases "group_trace key_type state trace")
    case (Inl e)
    then show ?thesis by (simp add: objects_read_trace)
  next
    case (Inr state')
    from Cons [of state' "read_trace \<sigma>"] Inr show ?thesis
      by (simp add: objects_read_trace)
  qed
qed

lemma group_frames_st_run:
  "\<exists>\<sigma>'. group_frames_st key_type state trs \<sigma> = (group_frames key_type state trs, \<sigma>')
        \<and> objects \<sigma>' = objects \<sigma>"
proof (induction trs arbitrary: state \<sigma>)
  case Nil
  then show ?case by (simp add: group_frames_def)
next
  case (Cons trace rest)
  from Cons [of "foldl (group_frame key_type (fst trace)) state (snd trace)" "read_trace \<sigma>"]
  show ?case by (simp add: group_frames_def objects_read_trace)
qed

lemma filter_raising_st_run:
  "\<exists>\<sigma>'. filter_raising_st p xs \<sigma> = (filter_raising p xs, \<sigma>') \<and> objects \<sigma>' = objects \<sigma>"
proof (induction xs arbitrary: \<sigma>)
  case Nil
  then show ?case by simp
next
  case (Cons x xs)
  show ?case
  proof (cases "p x")
    case (Inl e)
    then show ?thesis by (simp add: objects_read_trace)
  next
    case (Inr keep)
    from Cons [of "read_trace \<sigma>"] obtain \<sigma>' where
      "filter_raising_st p xs (read_trace \<sigma>) = (filter_raising p xs, \<sigma>')"
      and "objects \<sigma>' = objects \<sigma>"
      by (auto simp: objects_read_trace)
    with Inr show ?thesis by (cases "filter_raising p xs") simp_all
  qed
qed

lemma group_by_st_run:
  "\<exists>\<sigma>'. group_by_st rt this key_type cumulative \<sigma>
          = (group_by rt key_type cumulative (objects \<sigma> this), \<sigma>')
        \<and> objects \<sigma>' = objects \<sigma>"
proof -
  let ?trs = "traces (objects \<sigma> this)"
  consider (invalid) "key_type \<notin> set [''traceback'', ''filename'', ''lineno''] \<or>
      (cumulative \<and> key_type \<notin> set [''lineno'', ''filename''])"
    | (plain) "key_type \<in> set [''traceback'', ''filename'', ''lineno'']"
        "\<not> cumulative"
    | (cum) "key_type \<in> set [''traceback'', ''filename'', ''lineno'']"
        "cumulative" "key_type \<in> set [''lineno'', ''filename'']"
    by blast
  then show ?thesis
  proof cases
    case invalid
    then show ?thesis by (auto simp: group_by_st_def group_by_def)
  next
    case plain
    from group_traces_st_run [of key_type "([], Map.empty)" ?trs \<sigma>] obtain \<sigma>' where
      run: "group_traces_st key_type ([], Map.empty) ?trs \<sigma>
              = (group_traces key_type ([], Map.empty) ?trs, \<sigma>')"
      and obj: "objects \<sigma>' = objects \<sigma>" by blast
    from plain run obj show ?thesis
      by (cases "group_traces key_type ([], Map.empty) ?trs")
         (simp_all add: group_by_st_def group_by_def aggregate_def)
  next
    case cum
    from group_frames_st_run [of key_type "([], Map.empty)" ?trs \<sigma>] obtain \<sigma>' where
      run: "group_frames_st key_type ([], Map.empty) ?trs \<sigma>
              = (group_frames key_type ([], Map.empty) ?trs, \<sigma>')"
      and obj: "objects \<sigma>' = objects \<sigma>" by blast
    from cum run obj show ?thesis
      by (simp add: group_by_st_def group_by_def aggregate_def)
  qed
qed

lemma group_by_st_invalid:
  assumes "group_by rt key_type cumulative (objects \<sigma> this) = Inl ValueError"
  shows "group_by_st rt this key_type cumulative \<sigma> = (Inl ValueError, \<sigma>)"
proof -
  from assms have "key_type \<notin> {''traceback'', ''filename'', ''lineno''}
      \<or> (cumulative \<and> key_type = ''traceback'')"
    by (simp only: group_by_ValueError)
  then show ?thesis by (auto simp: group_by_st_def)
qed

lemma statistics_st_run:
  "\<exists>\<sigma>'. statistics_st rt this key_type cumulative \<sigma>
          = (statistics rt key_type cumulative (objects \<sigma> this), \<sigma>')
        \<and> objects \<sigma>' = objects \<sigma>"
proof -
  from group_by_st_run [of rt this key_type cumulative \<sigma>] obtain \<sigma>' where
    "group_by_st rt this key_type cumulative \<sigma>
       = (group_by rt key_type cumulative (objects \<sigma> this), \<sigma>')"
    and "objects \<sigma>' = objects \<sigma>" by blast
  then show ?thesis
    by (cases "group_by rt key_type cumulative (objects \<sigma> this)")
       (simp_all add: statistics_st_def statistics_def)
qed

lemma compare_to_st_run:
  "\<exists>\<sigma>'. compare_to_st rt this old key_type cumulative \<sigma>
          = (compare_to rt (objects \<sigma> this) (objects \<sigma> old) key_type cumulative, \<sigma>')
        \<and> objects \<sigma>' = objects \<sigma>"
proof -
  from group_by_st_run [of rt this key_type cumulative \<sigma>] obtain \<sigma>1 where
    g1: "group_by_st rt this key_type cumulative \<sigma>
       = (group_by rt key_type cumulative (objects \<sigma> this), \<sigma>1)"
    and o1: "objects \<sigma>1 = objects \<sigma>" by blast
  from group_by_st_run [of rt old key_type cumulative \<sigma>1] o1 obtain \<sigma>2 where
    g2: "group_by_st rt old key_type cumulative \<sigma>1
       = (group_by rt key_type cumulative (objects \<sigma> old), \<sigma>2)"
    and o2: "objects \<sigma>2 = objects \<sigma>" by auto
  from g1 g2 o1 o2 show ?thesis
    by (cases "group_by rt key_type cumulative (objects \<sigma> this)";
        cases "group_by rt key_type cumulative (objects \<sigma> old)")
       (simp_all add: compare_to_st_def compare_to_def)
qed

lemma filter_traces_st_run:
  "\<exists>\<sigma>'. filter_traces_st rt this filters \<sigma>
          = (filter_traces rt filters (objects \<sigma> this), \<sigma>')
        \<and> objects \<sigma>' = objects \<sigma>"
proof (cases filters)
  case NotIterable
  then show ?thesis by (simp add: filter_traces_st_def filter_traces_def)
next
  case (IterableOf fs)
  let ?p = "filter_trace rt (filter inclusive fs) (filter (\<lambda>f. \<not> inclusive f) fs)"
  let ?trs = "traces (objects \<sigma> this)"
  from filter_raising_st_run [of ?p ?trs \<sigma>] obtain \<sigma>' where
    "filter_raising_st ?p ?trs \<sigma> = (filter_raising ?p ?trs, \<sigma>')"
    and "objects \<sigma>' = objects \<sigma>" by blast
  with IterableOf show ?thesis
    by (cases "filter_raising ?p ?trs") (simp_all add: filter_traces_st_def filter_traces_def)
qed

lemma statistics_st_result:
  "fst (statistics_st rt this key_type cumulative \<sigma>)
     = statistics rt key_type cumulative (objects \<sigma> this)"
  using statistics_st_run [of rt this key_type cumulative \<sigma>] by auto

lemma statistics_st_objects:
  "objects (snd (statistics_st rt this key_type cumulative \<sigma>)) = objects \<sigma>"
  using statistics_st_run [of rt this key_type cumulative \<sigma>] by auto

lemma compare_to_st_result:
  "fst (compare_to_st rt this old key_type cumulative \<sigma>)
     = compare_to rt (objects \<sigma> this) (objects \<sigma> old) key_type cumulative"
  using compare_to_st_run [of rt this old key_type cumulative \<sigma>] by auto

lemma compare_to_st_objects:
  "objects (snd (compare_to_st rt this old key_type cumulative \<sigma>)) = objects \<sigma>"
  using compare_to_st_run [of rt this old key_type cumulative \<sigma>] by auto

lemma filter_traces_st_result:
  "fst (filter_traces_st rt this filters \<sigma>) = filter_traces rt filters (objects \<sigma> this)"
  using filter_traces_st_run [of rt this filters \<sigma>] by auto

lemma filter_traces_st_objects:
  "objects (snd (filter_traces_st rt this filters \<sigma>)) = objects \<sigma>"
  using filter_traces_st_run [of rt this filters \<sigma>] by auto

text \<open>
  Claim C8. \<^verbatim>\<open>statistics\<close> and \<^verbatim>\<open>compare_to\<close> raise \<^verbatim>\<open>ValueError\<close> if and only if the key type is
  not one of the three known ones or the cumulative mode is combined with the key type
  \<^verbatim>\<open>traceback\<close>; \<^verbatim>\<open>filter_traces\<close> raises \<^verbatim>\<open>TypeError\<close> if and only if its argument is not
  iterable. The equivalences hold for every Snapshot, also for one whose traces would make
  the aggregation or the filtering raise \<^verbatim>\<open>IndexError\<close>. As transitions of a state, the three
  methods return what the functions of the receiver return; a call that fails with one of
  these errors ends in the state it started from, so no loop of the aggregation or of the
  filtering has taken a trace and no object has changed; and after every call, failing or
  not, the receiver and every other object are as they were.
\<close>

theorem invalid_arguments:
  "(statistics rt key_type cumulative s = Inl ValueError \<longleftrightarrow>
      key_type \<notin> {''traceback'', ''filename'', ''lineno''} \<or>
      (cumulative \<and> key_type = ''traceback'')) \<and>
   (compare_to rt s old_snapshot key_type cumulative = Inl ValueError \<longleftrightarrow>
      key_type \<notin> {''traceback'', ''filename'', ''lineno''} \<or>
      (cumulative \<and> key_type = ''traceback'')) \<and>
   (filter_traces rt filters s = Inl TypeError \<longleftrightarrow> filters = NotIterable) \<and>
   fst (statistics_st rt this key_type cumulative \<sigma>)
     = statistics rt key_type cumulative (objects \<sigma> this) \<and>
   fst (compare_to_st rt this old key_type cumulative \<sigma>)
     = compare_to rt (objects \<sigma> this) (objects \<sigma> old) key_type cumulative \<and>
   fst (filter_traces_st rt this filters \<sigma>) = filter_traces rt filters (objects \<sigma> this) \<and>
   (fst (statistics_st rt this key_type cumulative \<sigma>) = Inl ValueError \<longrightarrow>
      snd (statistics_st rt this key_type cumulative \<sigma>) = \<sigma>) \<and>
   (fst (compare_to_st rt this old key_type cumulative \<sigma>) = Inl ValueError \<longrightarrow>
      snd (compare_to_st rt this old key_type cumulative \<sigma>) = \<sigma>) \<and>
   (fst (filter_traces_st rt this filters \<sigma>) = Inl TypeError \<longrightarrow>
      snd (filter_traces_st rt this filters \<sigma>) = \<sigma>) \<and>
   objects (snd (statistics_st rt this key_type cumulative \<sigma>)) = objects \<sigma> \<and>
   objects (snd (compare_to_st rt this old key_type cumulative \<sigma>)) = objects \<sigma> \<and>
   objects (snd (filter_traces_st rt this filters \<sigma>)) = objects \<sigma>"
proof -
  have stat_iff: "statistics rt key_type cumulative s = Inl ValueError \<longleftrightarrow>
      key_type \<notin> {''traceback'', ''filename'', ''lineno''} \<or>
      (cumulative \<and> key_type = ''traceback'')" for s
    by (simp only: statistics_error group_by_ValueError)
  have cmp_grp: "compare_to rt s old_snapshot key_type cumulative = Inl ValueError \<longleftrightarrow>
      group_by rt key_type cumulative s = Inl ValueError" for s old_snapshot
  proof -
    have "compare_to rt s old_snapshot key_type cumulative = Inl ValueError \<longleftrightarrow>
        group_by rt key_type cumulative s = Inl ValueError \<or>
        (\<exists>g. group_by rt key_type cumulative s = Inr g) \<and>
        group_by rt key_type cumulative old_snapshot = Inl ValueError"
      by (cases "group_by rt key_type cumulative s";
          cases "group_by rt key_type cumulative old_snapshot")
         (simp_all add: compare_to_def)
    moreover have "group_by rt key_type cumulative old_snapshot = Inl ValueError \<longleftrightarrow>
        group_by rt key_type cumulative s = Inl ValueError"
      by (simp only: group_by_ValueError)
    ultimately show ?thesis by blast
  qed
  have cmp_iff: "compare_to rt s old_snapshot key_type cumulative = Inl ValueError \<longleftrightarrow>
      key_type \<notin> {''traceback'', ''filename'', ''lineno''} \<or>
      (cumulative \<and> key_type = ''traceback'')"
    by (simp only: cmp_grp group_by_ValueError)
  have flt_iff: "filter_traces rt filters s = Inl TypeError \<longleftrightarrow> filters = NotIterable" for s
  proof (cases filters)
    case NotIterable
    then show ?thesis by (simp add: filter_traces_def)
  next
    case (IterableOf fs)
    then show ?thesis using filter_traces_error [of rt fs s TypeError] by auto
  qed
  have stat_st: "snd (statistics_st rt this key_type cumulative \<sigma>) = \<sigma>"
    if "fst (statistics_st rt this key_type cumulative \<sigma>) = Inl ValueError"
  proof -
    from that have "group_by rt key_type cumulative (objects \<sigma> this) = Inl ValueError"
      by (simp add: statistics_st_result statistics_error)
    then have "group_by_st rt this key_type cumulative \<sigma> = (Inl ValueError, \<sigma>)"
      by (rule group_by_st_invalid)
    then show ?thesis by (simp add: statistics_st_def)
  qed
  have cmp_st: "snd (compare_to_st rt this old key_type cumulative \<sigma>) = \<sigma>"
    if "fst (compare_to_st rt this old key_type cumulative \<sigma>) = Inl ValueError"
  proof -
    from that have "group_by rt key_type cumulative (objects \<sigma> this) = Inl ValueError"
      by (simp add: compare_to_st_result cmp_grp)
    then have "group_by_st rt this key_type cumulative \<sigma> = (Inl ValueError, \<sigma>)"
      by (rule group_by_st_invalid)
    then show ?thesis by (simp add: compare_to_st_def)
  qed
  have flt_st: "snd (filter_traces_st rt this filters \<sigma>) = \<sigma>"
    if "fst (filter_traces_st rt this filters \<sigma>) = Inl TypeError"
  proof -
    from that have "filters = NotIterable"
      by (simp add: filter_traces_st_result flt_iff)
    then show ?thesis by (simp add: filter_traces_st_def)
  qed
  show ?thesis
  proof (intro conjI)
    show "statistics rt key_type cumulative s = Inl ValueError \<longleftrightarrow>
      key_type \<notin> {''traceback'', ''filename'', ''lineno''} \<or>
      (cumulative \<and> key_type = ''traceback'')" by (rule stat_iff)
    show "compare_to rt s old_snapshot key_type cumulative = Inl ValueError \<longleftrightarrow>
      key_type \<notin> {''traceback'', ''filename'', ''lineno''} \<or>
      (cumulative \<and> key_type = ''traceback'')" by (rule cmp_iff)
    show "filter_traces rt filters s = Inl TypeError \<longleftrightarrow> filters = NotIterable"
      by (rule flt_iff)
  qed (insert stat_st cmp_st flt_st,
      simp_all only: statistics_st_result compare_to_st_result filter_traces_st_result
        statistics_st_objects compare_to_st_objects filter_traces_st_objects simp_thms,
      blast+)
qed


theorem invalid_arguments_witness:
  "statistics posix_literal ''size'' False (Snapshot [(5, [])] 25 0) = Inl ValueError \<and>
   statistics posix_literal ''traceback'' True (Snapshot [(5, [])] 25 0) = Inl ValueError \<and>
   compare_to posix_literal (Snapshot [(5, [])] 25 0) (Snapshot [(5, [])] 25 0) ''size'' True
     = Inl ValueError \<and>
   filter_traces posix_literal NotIterable (Snapshot [(5, [])] 25 0) = Inl TypeError \<and>
   statistics_st posix_literal 0 ''traceback'' True
     \<lparr>objects = (\<lambda>a. Snapshot [(5, [])] 25 0), traces_read = 0\<rparr>
     = (Inl ValueError, \<lparr>objects = (\<lambda>a. Snapshot [(5, [])] 25 0), traces_read = 0\<rparr>) \<and>
   compare_to_st posix_literal 0 1 ''size'' False
     \<lparr>objects = (\<lambda>a. Snapshot [(5, [])] 25 0), traces_read = 0\<rparr>
     = (Inl ValueError, \<lparr>objects = (\<lambda>a. Snapshot [(5, [])] 25 0), traces_read = 0\<rparr>) \<and>
   filter_traces_st posix_literal 0 NotIterable
     \<lparr>objects = (\<lambda>a. Snapshot [(5, [])] 25 0), traces_read = 0\<rparr>
     = (Inl TypeError, \<lparr>objects = (\<lambda>a. Snapshot [(5, [])] 25 0), traces_read = 0\<rparr>) \<and>
   traces_read (snd (statistics_st posix_literal 0 ''lineno'' True
     \<lparr>objects = (\<lambda>a. Snapshot [(5, [])] 25 0), traces_read = 0\<rparr>)) = 1"
proof -
  have run: "traces_read (snd (statistics_st posix_literal 0 ''lineno'' True
     \<lparr>objects = (\<lambda>a. Snapshot [(5, [])] 25 0), traces_read = 0\<rparr>)) = 1"
    by (simp add: statistics_st_def group_by_st_def read_trace_def Snapshot_def)
  show ?thesis
    using invalid_arguments [where rt = posix_literal and key_type = "''size''"
        and cumulative = False and s = "Snapshot [(5, [])] 25 0"
        and old_snapshot = "Snapshot [(5, [])] 25 0" and filters = NotIterable and this = 0 and old = 1
        and \<sigma> = "\<lparr>objects = (\<lambda>a. Snapshot [(5, [])] 25 0), traces_read = 0\<rparr>"]
      invalid_arguments [where rt = posix_literal and key_type = "''traceback''"
        and cumulative = True and s = "Snapshot [(5, [])] 25 0"
        and old_snapshot = "Snapshot [(5, [])] 25 0" and filters = NotIterable and this = 0 and old = 1
        and \<sigma> = "\<lparr>objects = (\<lambda>a. Snapshot [(5, [])] 25 0), traces_read = 0\<rparr>"]
      invalid_arguments [where rt = posix_literal and key_type = "''size''"
        and cumulative = True and s = "Snapshot [(5, [])] 25 0"
        and old_snapshot = "Snapshot [(5, [])] 25 0" and filters = NotIterable and this = 0 and old = 1
        and \<sigma> = "\<lparr>objects = (\<lambda>a. Snapshot [(5, [])] 25 0), traces_read = 0\<rparr>"]
      run
    by (simp add: prod_eq_iff)
qed

section \<open>Traces without frames\<close>

lemma derive_key_filename_Nil: "derive_key ''filename'' [] = Inl IndexError"
  by (simp add: derive_key_def tuple_getitem_0_Nil)

lemma derive_key_filename_Cons:
  "derive_key ''filename'' (fr # rest) = Inr (Traceback [('''', fst (snd fr), 0, 0)])"
  by (simp add: derive_key_def tuple_getitem_0_Cons split: prod.splits)

text \<open>With the key type \<^verbatim>\<open>filename\<close> the memo never holds the empty tuple, so the first trace
  without frames makes the loop raise.\<close>

lemma group_traces_filename_empty:
  assumes "memo [] = None" and "(sz, []) \<in> set trs"
  shows "group_traces ''filename'' (stats, memo) trs = Inl IndexError"
  using assms
proof (induction trs arbitrary: stats memo)
  case Nil
  then show ?case by simp
next
  case (Cons trace rest)
  note IH = Cons.IH and memo = Cons.prems(1) and mem = Cons.prems(2)
  obtain sz' tb where trace: "trace = (sz', tb)" by (cases trace)
  show ?case
  proof (cases "tb = []")
    case True
    with memo trace show ?thesis
      by (simp add: group_trace_def derive_key_filename_Nil)
  next
    case False
    then obtain fr frs where tb: "tb = fr # frs" by (cases tb) auto
    from False mem trace have in_rest: "(sz, []) \<in> set rest" by auto
    have "\<exists>stats' memo'. group_trace ''filename'' (stats, memo) trace = Inr (stats', memo')
            \<and> memo' [] = None"
      using memo False
      by (cases "memo tb") (simp_all add: group_trace_def trace tb derive_key_filename_Cons)
    then obtain stats' memo' where
      step: "group_trace ''filename'' (stats, memo) trace = Inr (stats', memo')"
      and memo': "memo' [] = None"
      by blast
    from memo' in_rest have "group_traces ''filename'' (stats', memo') rest = Inl IndexError"
      by (rule IH)
    with step show ?thesis by simp
  qed
qed

lemma aggregate_plain_total:
  assumes "key_type = ''traceback'' \<or> key_type = ''lineno''"
  shows "\<exists>stats. aggregate key_type False trs = Inr stats"
proof -
  from assms have "\<exists>k. derive_key key_type tb = Inr k" for tb
    by (auto simp: derive_key_traceback derive_key_lineno)
  then obtain st where "group_traces key_type ([], Map.empty) trs = Inr st"
    using group_traces_total by blast
  then show ?thesis by (simp add: aggregate_def)
qed

lemma statistics_plain_no_IndexError:
  assumes "key_type = ''traceback'' \<or> key_type = ''lineno''"
  shows "statistics rt key_type False s \<noteq> Inl IndexError"
    and "sample_rate s \<le> 1 \<Longrightarrow> \<exists>stats. statistics rt key_type False s = Inr stats"
proof -
  from aggregate_plain_total [OF assms] obtain stats where
    agg: "aggregate key_type False (traces s) = Inr stats" by blast
  with assms have grp: "group_by rt key_type False s = scale_heap_samples rt (sample_rate s) stats"
    by (auto simp: group_by_def)
  show "statistics rt key_type False s \<noteq> Inl IndexError"
  proof
    assume "statistics rt key_type False s = Inl IndexError"
    then have "scale_heap_samples rt (sample_rate s) stats = Inl IndexError"
      by (simp add: statistics_error grp)
    then show False by (auto dest: scale_heap_samples_error)
  qed
  show "\<exists>r. statistics rt key_type False s = Inr r" if "sample_rate s \<le> 1"
    using that by (simp add: statistics_def grp scale_heap_samples_identity)
qed

lemma filter_raising_total:
  "\<forall>x\<in>set xs. \<exists>b. p x = Inr b \<Longrightarrow> \<exists>ys. filter_raising p xs = Inr ys"
  by (induction xs) auto

lemma filter_trace_all_frames:
  assumes "list_all all_frames incl" and "list_all all_frames excl"
  shows "\<exists>b. filter_trace rt incl excl trace = Inr b"
proof -
  let ?m = "\<lambda>f. match_traceback rt f (snd trace)"
  from assms(1) have "\<exists>b. any_raising ?m incl = Inr b"
    by (intro any_raising_total) (auto simp: list_all_iff match_traceback_all_frames)
  moreover from assms(2) have "\<exists>b. any_raising (\<lambda>f. not_raising (?m f)) excl = Inr b"
  proof (intro any_raising_total ballI)
    fix f assume "f \<in> set excl"
    with assms(2) have "all_frames f" by (simp add: list_all_iff)
    then obtain b where "?m f = Inr b" using match_traceback_all_frames by blast
    then show "\<exists>b. not_raising (?m f) = Inr b" by (simp add: not_raising_def)
  qed
  ultimately show ?thesis
    by (auto simp: filter_trace_def Let_def not_raising_def split: sum.splits bool.splits)
qed

lemma filter_traces_all_frames:
  assumes "list_all all_frames fs"
  shows "\<exists>s'. filter_traces rt (IterableOf fs) s = Inr s'"
proof -
  from assms have "list_all all_frames (filter inclusive fs)"
    and "list_all all_frames (filter (\<lambda>f. \<not> inclusive f) fs)"
    by (simp_all add: list_all_iff)
  then have "\<forall>t\<in>set (traces s). \<exists>b.
      filter_trace rt (filter inclusive fs) (filter (\<lambda>f. \<not> inclusive f) fs) t = Inr b"
    using filter_trace_all_frames by blast
  from filter_raising_total [OF this] show ?thesis
    by (auto simp: filter_traces_def Let_def)
qed

lemma filter_trace_single_empty:
  assumes "list_all (\<lambda>f. \<not> all_frames f) fs" and "fs \<noteq> []"
  shows "filter_trace rt (filter inclusive fs) (filter (\<lambda>f. \<not> inclusive f) fs) (sz, [])
           = Inl IndexError"
proof (cases "filter inclusive fs")
  case Nil
  with assms(2) obtain f rest where excl: "filter (\<lambda>f. \<not> inclusive f) fs = f # rest"
    by (cases "filter (\<lambda>f. \<not> inclusive f) fs") (auto simp: filter_empty_conv)
  then have "f \<in> set (filter (\<lambda>f. \<not> inclusive f) fs)" by simp
  then have "f \<in> set fs" by simp
  with assms(1) have "\<not> all_frames f" by (simp add: list_all_iff)
  with Nil excl show ?thesis
    by (simp add: filter_trace_def match_traceback_single_empty not_raising_def)
next
  case (Cons f rest)
  then have "f \<in> set (filter inclusive fs)" by simp
  then have "f \<in> set fs" by simp
  with assms(1) have "\<not> all_frames f" by (simp add: list_all_iff)
  with Cons show ?thesis
    by (simp add: filter_trace_def match_traceback_single_empty not_raising_def)
qed

lemma filter_traces_single_empty:
  assumes "list_all (\<lambda>f. \<not> all_frames f) fs" and "fs \<noteq> []" and "(sz, []) \<in> set (traces s)"
  shows "filter_traces rt (IterableOf fs) s = Inl IndexError"
proof -
  let ?p = "filter_trace rt (filter inclusive fs) (filter (\<lambda>f. \<not> inclusive f) fs)"
  have "\<forall>t\<in>set (traces s). ?p t = Inl IndexError \<or> (\<exists>b. ?p t = Inr b)"
  proof
    fix t show "?p t = Inl IndexError \<or> (\<exists>b. ?p t = Inr b)"
      by (cases "?p t") (auto dest: filter_trace_error)
  qed
  moreover have "\<exists>t\<in>set (traces s). ?p t = Inl IndexError"
    using assms filter_trace_single_empty by blast
  ultimately have "filter_raising ?p (traces s) = Inl IndexError"
    by (rule filter_raising_first_error)
  with assms(2) show ?thesis by (simp add: filter_traces_def)
qed

text \<open>
  Claim C9, amended. For every Snapshot that holds a trace whose traceback has length 0:
  \<^verbatim>\<open>statistics\<close> (not cumulative) with the key types \<^verbatim>\<open>traceback\<close> and \<^verbatim>\<open>lineno\<close> reaches no
  out-of-bounds branch, and returns normally when \<open>sample_rate \<le> 1\<close> (beyond that only the
  float arithmetic of the scaling can raise); with the key type \<^verbatim>\<open>filename\<close> it raises
  \<^verbatim>\<open>IndexError\<close>. \<^verbatim>\<open>filter_traces\<close> returns normally when the list of filters is empty or every
  filter has \<open>all_frames\<close> set, and raises \<^verbatim>\<open>IndexError\<close> when the list is not empty and every
  filter is a single-frame filter.
\<close>

theorem depth_zero_traceback:
  assumes "(sz, []) \<in> set (traces s)"
  shows "statistics rt ''traceback'' False s \<noteq> Inl IndexError \<and>
         statistics rt ''lineno'' False s \<noteq> Inl IndexError \<and>
         (sample_rate s \<le> 1 \<longrightarrow>
            (\<exists>stats. statistics rt ''traceback'' False s = Inr stats) \<and>
            (\<exists>stats. statistics rt ''lineno'' False s = Inr stats)) \<and>
         statistics rt ''filename'' False s = Inl IndexError \<and>
         (list_all all_frames fs \<longrightarrow> (\<exists>s'. filter_traces rt (IterableOf fs) s = Inr s')) \<and>
         (fs \<noteq> [] \<and> list_all (\<lambda>f. \<not> all_frames f) fs \<longrightarrow>
            filter_traces rt (IterableOf fs) s = Inl IndexError)"
proof -
  have "group_traces ''filename'' ([], Map.empty) (traces s) = Inl IndexError"
    using assms by (intro group_traces_filename_empty) simp_all
  then have "statistics rt ''filename'' False s = Inl IndexError"
    by (simp add: statistics_def group_by_def aggregate_def)
  moreover have "statistics rt ''traceback'' False s \<noteq> Inl IndexError"
    by (rule statistics_plain_no_IndexError) simp
  moreover have "statistics rt ''lineno'' False s \<noteq> Inl IndexError"
    by (rule statistics_plain_no_IndexError) simp
  moreover have "\<exists>stats. statistics rt ''traceback'' False s = Inr stats"
    if "sample_rate s \<le> 1"
    using _ that by (rule statistics_plain_no_IndexError) simp
  moreover have "\<exists>stats. statistics rt ''lineno'' False s = Inr stats"
    if "sample_rate s \<le> 1"
    using _ that by (rule statistics_plain_no_IndexError) simp
  moreover have "\<exists>s'. filter_traces rt (IterableOf fs) s = Inr s'" if "list_all all_frames fs"
    using that by (rule filter_traces_all_frames)
  moreover have "filter_traces rt (IterableOf fs) s = Inl IndexError"
    if "fs \<noteq> []" "list_all (\<lambda>f. \<not> all_frames f) fs"
    using that(2) that(1) assms by (rule filter_traces_single_empty)
  ultimately show ?thesis by blast
qed

theorem depth_zero_traceback_witness:
  "statistics posix_literal ''traceback'' False (Snapshot [(5, [])] 25 0) \<noteq> Inl IndexError \<and>
   statistics posix_literal ''lineno'' False (Snapshot [(5, [])] 25 0) \<noteq> Inl IndexError \<and>
   (\<exists>stats. statistics posix_literal ''traceback'' False (Snapshot [(5, [])] 25 0) = Inr stats) \<and>
   (\<exists>stats. statistics posix_literal ''lineno'' False (Snapshot [(5, [])] 25 0) = Inr stats) \<and>
   statistics posix_literal ''filename'' False (Snapshot [(5, [])] 25 0) = Inl IndexError \<and>
   (\<exists>s'. filter_traces posix_literal
            (IterableOf [Filter posix_literal True ''a.py'' None True])
            (Snapshot [(5, [])] 25 0) = Inr s') \<and>
   filter_traces posix_literal (IterableOf [Filter posix_literal False ''a.py'' (Some 3) False])
     (Snapshot [(5, [])] 25 0) = Inl IndexError"
  using depth_zero_traceback [of 5 "Snapshot [(5, [])] 25 0" posix_literal
      "[Filter posix_literal True ''a.py'' None True]"]
    depth_zero_traceback [of 5 "Snapshot [(5, [])] 25 0" posix_literal
      "[Filter posix_literal False ''a.py'' (Some 3) False]"]
  by (simp add: Snapshot_def Filter_def)

text \<open>
  As the claim is stated, with all three key types and any list of filters returning
  normally, it fails: \<^verbatim>\<open>trace_traceback[0]\<close> in the \<^verbatim>\<open>filename\<close> branch and \<^verbatim>\<open>traceback[0]\<close> in
  the single-frame branch of \<^verbatim>\<open>Filter._match_traceback\<close> raise on the empty tuple.
\<close>

theorem depth_zero_traceback_counterexample:
  "statistics posix_literal ''filename'' False (Snapshot [(5, [])] 25 0) = Inl IndexError \<and>
   filter_traces posix_literal (IterableOf [Filter posix_literal True ''a.py'' None False])
     (Snapshot [(5, [])] 25 0) = Inl IndexError"
  by (simp add: statistics_def group_by_def aggregate_def group_trace_def derive_key_def
      tuple_getitem_def Snapshot_def filter_traces_def filter_trace_def match_traceback_def
      Filter_def not_raising_def)

section \<open>Facts about the comparison of two groupings\<close>

lemma group_frame_distinct:
  "distinct (map fst (fst state)) \<Longrightarrow> distinct (map fst (fst (group_frame key_type sz state fr)))"
  by (cases state) (simp add: group_frame_def accumulate_distinct Let_def split: option.split)

lemma foldl_group_frame_distinct:
  "distinct (map fst (fst state)) \<Longrightarrow>
     distinct (map fst (fst (foldl (group_frame key_type sz) state frs)))"
  by (induction frs arbitrary: state) (simp_all add: group_frame_distinct)

lemma group_frames_distinct:
  "distinct (map fst (fst state)) \<Longrightarrow> distinct (map fst (fst (group_frames key_type state trs)))"
  unfolding group_frames_def
  by (induction trs arbitrary: state) (simp_all add: foldl_group_frame_distinct)

lemma aggregate_distinct:
  assumes "aggregate key_type cumulative trs = Inr stats"
  shows "distinct (map fst stats)"
proof (cases cumulative)
  case True
  with assms have "stats = fst (group_frames key_type ([], Map.empty) trs)"
    by (simp add: aggregate_def)
  then show ?thesis by (simp add: group_frames_distinct)
next
  case False
  with assms obtain memo where "group_traces key_type ([], Map.empty) trs = Inr (stats, memo)"
    by (auto simp: aggregate_def split: sum.splits)
  from group_traces_sums [OF this] show ?thesis by simp
qed

lemma scale_heap_samples_keys:
  "scale_heap_samples rt rate stats = Inr stats' \<Longrightarrow> map fst stats' = map fst stats"
  by (induction stats arbitrary: stats') (auto split: sum.splits)

lemma group_by_distinct:
  assumes "group_by rt key_type cumulative s = Inr grouped"
  shows "distinct (map fst grouped)"
proof -
  from assms obtain stats where agg: "aggregate key_type cumulative (traces s) = Inr stats"
    and "scale_heap_samples rt (sample_rate s) stats = Inr grouped"
    by (auto simp: group_by_def split: if_splits sum.splits)
  then have "map fst grouped = map fst stats" by (simp add: scale_heap_samples_keys)
  with aggregate_distinct [OF agg] show ?thesis by simp
qed

lemma compare_new_remaining:
  "fst (compare_new old_group new_group acc)
     = filter (\<lambda>p. fst p \<notin> fst ` set new_group) old_group"
proof (induction new_group arbitrary: old_group acc)
  case Nil
  then show ?case by simp
next
  case (Cons entry rest)
  obtain tb stat where entry: "entry = (tb, stat)" by (cases entry)
  show ?case
  proof (cases "map_of old_group tb")
    case None
    then have "tb \<notin> fst ` set old_group" by (simp add: map_of_eq_None_iff)
    then have "filter (\<lambda>p. fst p \<notin> fst ` set (entry # rest)) old_group
                 = filter (\<lambda>p. fst p \<notin> fst ` set rest) old_group"
      by (intro filter_cong) (auto simp: entry)
    with None Cons.IH show ?thesis by (simp add: entry)
  next
    case (Some previous)
    have "filter (\<lambda>p. fst p \<notin> fst ` set rest) (AList.delete tb old_group)
            = filter (\<lambda>p. fst p \<notin> fst ` set (entry # rest)) old_group"
      by (auto simp: AList.delete_eq entry intro!: filter_cong)
    with Some Cons.IH show ?thesis by (simp add: entry)
  qed
qed

lemma compare_new_tracebacks:
  "map diff_traceback (snd (compare_new old_group new_group acc))
     = map diff_traceback acc @ map fst new_group"
  by (induction new_group arbitrary: old_group acc)
     (auto simp: StatisticDiff_def split: option.splits)

lemma filter_key_distinct:
  "distinct (map fst al) \<Longrightarrow> map_of al k = Some v \<Longrightarrow> filter (\<lambda>p. fst p = k) al = [(k, v)]"
proof (induction al)
  case Nil
  then show ?case by simp
next
  case (Cons p al)
  show ?case
  proof (cases "fst p = k")
    case True
    with Cons.prems have "k \<notin> fst ` set al" and "p = (k, v)" by (auto simp: prod_eq_iff)
    then have "filter (\<lambda>p. fst p = k) al = []" by (auto simp: filter_empty_conv)
    with True \<open>p = (k, v)\<close> show ?thesis by simp
  next
    case False
    with Cons show ?thesis by auto
  qed
qed

lemma compare_grouped_stats_old_only:
  assumes "distinct (map fst old_group)" and "map_of old_group k = Some st"
    and "map_of new_group k = None"
  shows "filter (\<lambda>d. diff_traceback d = k) (compare_grouped_stats old_group new_group)
           = [StatisticDiff k 0 (- stat_size st) 0 (- stat_count st)]"
proof -
  obtain remaining acc where cmp: "compare_new old_group new_group [] = (remaining, acc)"
    by (cases "compare_new old_group new_group []")
  from assms(3) have fresh: "k \<notin> fst ` set new_group" by (simp add: map_of_eq_None_iff)
  have "map diff_traceback acc = map fst new_group"
    using compare_new_tracebacks [of old_group new_group "[]"] cmp by simp
  with fresh have "k \<notin> set (map diff_traceback acc)" by simp
  then have acc: "filter (\<lambda>d. diff_traceback d = k) acc = []"
    by (auto simp: filter_empty_conv)
  have "remaining = filter (\<lambda>p. fst p \<notin> fst ` set new_group) old_group"
    using compare_new_remaining [of old_group new_group "[]"] cmp by simp
  then have "filter (\<lambda>p. fst p = k) remaining = filter (\<lambda>p. fst p = k) old_group"
    using fresh by (auto intro!: filter_cong)
  also have "\<dots> = [(k, st)]" using assms(1,2) by (rule filter_key_distinct)
  finally have rem: "filter (\<lambda>p. fst p = k) remaining = [(k, st)]" .
  have "filter (\<lambda>d. diff_traceback d = k)
          (map (\<lambda>(tb, stat). StatisticDiff tb 0 (- stat_size stat) 0 (- stat_count stat)) remaining)
        = map (\<lambda>(tb, stat). StatisticDiff tb 0 (- stat_size stat) 0 (- stat_count stat))
            (filter (\<lambda>p. fst p = k) remaining)"
    by (induction remaining) (auto simp: StatisticDiff_def)
  with rem acc cmp show ?thesis by (simp add: compare_grouped_stats_def)
qed

lemma filter_sort_reverse_single:
  assumes "filter P xs = [x]"
  shows "filter P (sort_reverse k xs) = [x]"
proof -
  have "mset (filter P (sort_reverse k xs)) = mset (filter P xs)"
    by (simp add: mset_sort_reverse)
  also from assms have "\<dots> = {#x#}" by (simp del: mset_filter)
  finally show ?thesis by (simp only: mset_single_iff)
qed

lemma sort_reverse_single: "sort_reverse k [x] = [x]"
  by (simp add: sort_reverse_def)

lemma group_by_empty:
  assumes "traces s = []"
    and "key_type \<in> {''traceback'', ''filename'', ''lineno''}"
    and "\<not> (cumulative \<and> key_type = ''traceback'')"
  shows "group_by rt key_type cumulative s = Inr []"
  using assms by (auto simp: group_by_def aggregate_def group_frames_def)

lemma aggregate_one_frame:
  assumes "key_type \<in> {''traceback'', ''filename'', ''lineno''}"
  shows "\<exists>key. aggregate key_type cumulative [(sz, [fr])] = Inr [(key, Statistic key sz 1)]"
proof (cases cumulative)
  case True
  then have "aggregate key_type cumulative [(sz, [fr])]
      = Inr [(frame_key key_type fr, Statistic (frame_key key_type fr) sz 1)]"
    by (simp add: aggregate_def group_frames_def group_frame_def accumulate_def Let_def)
  then show ?thesis by blast
next
  case False
  obtain key where "derive_key key_type [fr] = Inr key"
    by (cases "derive_key key_type [fr]") (auto dest: derive_key_error
        simp: derive_key_def tuple_getitem_0_Cons split: if_splits prod.splits)
  with False have "aggregate key_type cumulative [(sz, [fr])] = Inr [(key, Statistic key sz 1)]"
    by (simp add: aggregate_def group_trace_def accumulate_def)
  then show ?thesis by blast
qed

lemma group_by_one_frame:
  assumes "traces s = [(sz, [fr])]" and "sample_rate s \<le> 1"
    and "key_type \<in> {''traceback'', ''filename'', ''lineno''}"
    and "\<not> (cumulative \<and> key_type = ''traceback'')"
  shows "\<exists>key. group_by rt key_type cumulative s = Inr [(key, Statistic key sz 1)]"
proof -
  from aggregate_one_frame [OF assms(3)] obtain key where
    "aggregate key_type cumulative [(sz, [fr])] = Inr [(key, Statistic key sz 1)]" by blast
  with assms have "group_by rt key_type cumulative s = Inr [(key, Statistic key sz 1)]"
    by (auto simp: group_by_def scale_heap_samples_identity simp del: scale_heap_samples.simps)
  then show ?thesis by blast
qed

lemma group_by_one_trace:
  assumes "traces s = [(sz, tb)]" and "sample_rate s \<le> 1"
  shows "group_by rt ''traceback'' False s = Inr [(Traceback tb, Statistic (Traceback tb) sz 1)]"
proof -
  have "aggregate ''traceback'' False [(sz, tb)] = Inr [(Traceback tb, Statistic (Traceback tb) sz 1)]"
    by (simp add: aggregate_def group_trace_def derive_key_def accumulate_def)
  with assms show ?thesis
    by (simp add: group_by_def scale_heap_samples_identity del: scale_heap_samples.simps)
qed

lemma compare_grouped_stats_new_empty:
  "compare_grouped_stats [(key, Statistic key sz cnt)] []
     = [StatisticDiff key 0 (- sz) 0 (- cnt)]"
  by (simp add: compare_grouped_stats_def Statistic_def)

section \<open>Keys that are only in the old snapshot\<close>

text \<open>
  Claim C4, amended. When \<^verbatim>\<open>compare_to\<close> has grouped both snapshots, every key that is in the
  grouping of the old snapshot and not in the grouping of the new one has exactly one
  StatisticDiff in the result, with size 0, count 0, \<open>size_diff\<close> minus the old statistic's
  size and \<open>count_diff\<close> minus the old statistic's count. In particular, if the new snapshot
  is empty and the old snapshot has \<open>sample_rate \<le> 1\<close> and holds one trace of size 10, the
  result is the single StatisticDiff with size 0, \<open>size_diff\<close> -10, count 0 and \<open>count_diff\<close>
  -1 when the key type is \<^verbatim>\<open>traceback\<close> (not cumulative), and for every admissible key type
  and mode when the traceback of that trace has exactly one frame.
\<close>

theorem compare_to_old_only:
  "(group_by rt key_type cumulative new = Inr new_group \<and>
    group_by rt key_type cumulative old = Inr old_group \<and>
    map_of old_group k = Some st \<and> map_of new_group k = None \<longrightarrow>
      (\<exists>diffs. compare_to rt new old key_type cumulative = Inr diffs \<and>
         filter (\<lambda>d. diff_traceback d = k) diffs
           = [StatisticDiff k 0 (- stat_size st) 0 (- stat_count st)])) \<and>
   (traces new = [] \<and> traces old = [(10, tb)] \<and> sample_rate old \<le> 1 \<longrightarrow>
      compare_to rt new old ''traceback'' False
        = Inr [StatisticDiff (Traceback tb) 0 (- 10) 0 (- 1)]) \<and>
   (traces new = [] \<and> traces old = [(10, [fr])] \<and> sample_rate old \<le> 1 \<and>
    key_type \<in> {''traceback'', ''filename'', ''lineno''} \<and>
    \<not> (cumulative \<and> key_type = ''traceback'') \<longrightarrow>
      (\<exists>key. compare_to rt new old key_type cumulative
                = Inr [StatisticDiff key 0 (- 10) 0 (- 1)]))"
proof (intro conjI impI)
  assume a: "group_by rt key_type cumulative new = Inr new_group \<and>
    group_by rt key_type cumulative old = Inr old_group \<and>
    map_of old_group k = Some st \<and> map_of new_group k = None"
  then have "distinct (map fst old_group)" using group_by_distinct by blast
  with a have "filter (\<lambda>d. diff_traceback d = k) (compare_grouped_stats old_group new_group)
           = [StatisticDiff k 0 (- stat_size st) 0 (- stat_count st)]"
    by (intro compare_grouped_stats_old_only) simp_all
  then have "filter (\<lambda>d. diff_traceback d = k)
               (sort_reverse diff_sort_key (compare_grouped_stats old_group new_group))
           = [StatisticDiff k 0 (- stat_size st) 0 (- stat_count st)]"
    by (rule filter_sort_reverse_single)
  with a show "\<exists>diffs. compare_to rt new old key_type cumulative = Inr diffs \<and>
         filter (\<lambda>d. diff_traceback d = k) diffs
           = [StatisticDiff k 0 (- stat_size st) 0 (- stat_count st)]"
    by (simp add: compare_to_def)
next
  assume a: "traces new = [] \<and> traces old = [(10, tb)] \<and> sample_rate old \<le> 1"
  then have "group_by rt ''traceback'' False new = Inr []"
    by (intro group_by_empty) simp_all
  moreover from a have "group_by rt ''traceback'' False old
      = Inr [(Traceback tb, Statistic (Traceback tb) 10 1)]"
    by (intro group_by_one_trace) simp_all
  ultimately show "compare_to rt new old ''traceback'' False
        = Inr [StatisticDiff (Traceback tb) 0 (- 10) 0 (- 1)]"
    by (simp add: compare_to_def compare_grouped_stats_new_empty sort_reverse_single)
next
  assume a: "traces new = [] \<and> traces old = [(10, [fr])] \<and> sample_rate old \<le> 1 \<and>
    key_type \<in> {''traceback'', ''filename'', ''lineno''} \<and>
    \<not> (cumulative \<and> key_type = ''traceback'')"
  then have "group_by rt key_type cumulative new = Inr []"
    by (intro group_by_empty) simp_all
  moreover from a obtain key where
    "group_by rt key_type cumulative old = Inr [(key, Statistic key 10 1)]"
    using group_by_one_frame [of old 10 fr key_type cumulative rt] by blast
  ultimately have "compare_to rt new old key_type cumulative
                = Inr [StatisticDiff key 0 (- 10) 0 (- 1)]"
    by (simp add: compare_to_def compare_grouped_stats_new_empty sort_reverse_single)
  then show "\<exists>key. compare_to rt new old key_type cumulative
                = Inr [StatisticDiff key 0 (- 10) 0 (- 1)]" ..
qed


theorem compare_to_old_only_witness:
  "(\<exists>diffs.
      compare_to posix_literal (Snapshot [(7, [(''h'', ''b.py'', 1, 1)])] 25 0)
        (Snapshot [(10, [(''f'', ''a.py'', 1, 10)])] 25 0) ''traceback'' False = Inr diffs \<and>
      filter (\<lambda>d. diff_traceback d = [(''f'', ''a.py'', 1, 10)]) diffs
        = [StatisticDiff [(''f'', ''a.py'', 1, 10)] 0 (- 10) 0 (- 1)]) \<and>
   compare_to posix_literal (Snapshot [] 25 0)
     (Snapshot [(10, [(''f'', ''a.py'', 1, 10)])] 25 0) ''traceback'' False
     = Inr [StatisticDiff [(''f'', ''a.py'', 1, 10)] 0 (- 10) 0 (- 1)]"
proof -
  have new_group: "group_by posix_literal ''traceback'' False
      (Snapshot [(7, [(''h'', ''b.py'', 1, 1)])] 25 0)
      = Inr [([(''h'', ''b.py'', 1, 1)], Statistic [(''h'', ''b.py'', 1, 1)] 7 1)]"
    by (simp add: group_by_def aggregate_def group_trace_def derive_key_def Traceback_def
        accumulate_def scale_heap_sample_def Statistic_def Snapshot_def)
  have old_group: "group_by posix_literal ''traceback'' False
      (Snapshot [(10, [(''f'', ''a.py'', 1, 10)])] 25 0)
      = Inr [([(''f'', ''a.py'', 1, 10)], Statistic [(''f'', ''a.py'', 1, 10)] 10 1)]"
    by (simp add: group_by_def aggregate_def group_trace_def derive_key_def Traceback_def
        accumulate_def scale_heap_sample_def Statistic_def Snapshot_def)
  show ?thesis
    using compare_to_old_only
      [where rt = posix_literal and key_type = "''traceback''" and cumulative = False
        and new = "Snapshot [(7, [(''h'', ''b.py'', 1, 1)])] 25 0"
        and new_group = "[([(''h'', ''b.py'', 1, 1)], Statistic [(''h'', ''b.py'', 1, 1)] 7 1)]"
        and old = "Snapshot [(10, [(''f'', ''a.py'', 1, 10)])] 25 0"
        and old_group = "[([(''f'', ''a.py'', 1, 10)], Statistic [(''f'', ''a.py'', 1, 10)] 10 1)]"
        and k = "[(''f'', ''a.py'', 1, 10)]" and st = "Statistic [(''f'', ''a.py'', 1, 10)] 10 1"
        and tb = "[(''f'', ''a.py'', 1, 10)]" and fr = "(''f'', ''a.py'', 1, 10)"]
      compare_to_old_only
      [where rt = posix_literal and key_type = "''traceback''" and cumulative = False
        and new = "Snapshot [] 25 0"
        and new_group = "[]"
        and old = "Snapshot [(10, [(''f'', ''a.py'', 1, 10)])] 25 0"
        and old_group = "[([(''f'', ''a.py'', 1, 10)], Statistic [(''f'', ''a.py'', 1, 10)] 10 1)]"
        and k = "[(''f'', ''a.py'', 1, 10)]" and st = "Statistic [(''f'', ''a.py'', 1, 10)] 10 1"
        and tb = "[(''f'', ''a.py'', 1, 10)]" and fr = "(''f'', ''a.py'', 1, 10)"]
      new_group old_group
    by (simp add: Statistic_def Snapshot_def Traceback_def)
qed

text \<open>
  As the claim is stated, for any key type, mode and old snapshot with one trace of size 10,
  its particular case fails: the cumulative grouping by \<^verbatim>\<open>lineno\<close> of a trace with two frames
  has two keys, so the result has two StatisticDiffs; the grouping by \<^verbatim>\<open>filename\<close> of a trace
  without frames raises; the cumulative grouping of a trace without frames is empty.
\<close>

theorem compare_to_scenario_counterexample:
  "compare_to posix_literal (Snapshot [] 25 0)
     (Snapshot [(10, [(''main'', ''a.py'', 1, 3), (''f'', ''b.py'', 5, 7)])] 25 0) ''lineno'' True
     = Inr [StatisticDiff [(''main'', ''a.py'', 1, 3)] 0 (- 10) 0 (- 1),
            StatisticDiff [(''f'', ''b.py'', 5, 7)] 0 (- 10) 0 (- 1)] \<and>
   compare_to posix_literal (Snapshot [] 25 0) (Snapshot [(10, [])] 25 0) ''filename'' False
     = Inl IndexError \<and>
   compare_to posix_literal (Snapshot [] 25 0) (Snapshot [(10, [])] 25 0) ''lineno'' True
     = Inr []"
  by (simp add: compare_to_def group_by_def aggregate_def group_frames_def group_frame_def
      frame_key_def group_trace_def derive_key_def tuple_getitem_def Traceback_def
      accumulate_def Statistic_def StatisticDiff_def scale_heap_sample_def Snapshot_def
      compare_grouped_stats_def sort_reverse_def diff_sort_key_def Let_def
      less_eq_prod_def less_prod_def less_char_def less_eq_char_def)

section \<open>Sampling-bias correction\<close>

text \<open>
  The part of the correction that is integer code: a Statistic with count 0 or size 0, and
  every Statistic when \<open>sample_rate \<le> 1\<close>, is returned as it is. What happens beyond these
  two early returns is IEEE-754 double arithmetic, which the embedding takes from the
  runtime.
\<close>

lemma scale_heap_sample_identity:
  "rate \<le> 1 \<or> stat_count stat = 0 \<or> stat_size stat = 0 \<Longrightarrow>
     scale_heap_sample rt rate stat = Inr stat"
  by (auto simp: scale_heap_sample_def)

section \<open>The frame a single-frame filter tests\<close>

lemma traceback_getitem_last:
  "traceback_getitem (Traceback (fr # rest)) (int (length rest)) = Inr (Frame fr)"
  by (simp add: traceback_getitem_def tuple_getitem_def Traceback_def nth_append)

lemma match_traceback_single_Cons:
  "match_traceback rt (Filter rt incl pat ln False) (fr # rest)
     = Inr (match_frame_private rt (Filter rt True pat ln False)
              (frame_filename (Frame fr)) (frame_lineno (Frame fr)) = incl)"
  by (cases incl)
     (auto simp: match_traceback_def tuple_getitem_0_Cons match_frame_def Filter_sel
       match_frame_private_inclusive frame_filename_def frame_lineno_def split: prod.splits)

text \<open>
  Claim C2, amended. For every Snapshot and every single-frame filter, \<^verbatim>\<open>filter_traces\<close> tests
  exactly item 0 of the raw frame tuple of each trace against the pattern and the line
  number of the filter: the inclusive filter keeps a trace iff that frame matches, the
  exclusive filter keeps it iff that frame does not match. The Traceback of the trace
  stores the raw tuple reversed, so the tested frame is its last item, at index
  \<open>len - 1\<close>; it is the most recent frame for a raw capture that lists the most recent frame
  first, the order \<^verbatim>\<open>Traceback.format\<close> relies on when it takes \<^verbatim>\<open>self[-limit:]\<close> for the most
  recent frames. When a trace has no frame, item 0 does not exist and the call raises
  \<^verbatim>\<open>IndexError\<close>.
\<close>

theorem single_frame_filter:
  "(list_all (\<lambda>t. snd t \<noteq> []) (traces s) \<longrightarrow>
      filter_traces rt (IterableOf [Filter rt True pat ln False]) s
        = Inr (Snapshot
                 (filter (\<lambda>t. match_frame_private rt (Filter rt True pat ln False)
                                (frame_filename (Frame (hd (snd t))))
                                (frame_lineno (Frame (hd (snd t))))) (traces s))
                 (traceback_limit s) (sample_rate s)) \<and>
      filter_traces rt (IterableOf [Filter rt False pat ln False]) s
        = Inr (Snapshot
                 (filter (\<lambda>t. \<not> match_frame_private rt (Filter rt True pat ln False)
                                  (frame_filename (Frame (hd (snd t))))
                                  (frame_lineno (Frame (hd (snd t))))) (traces s))
                 (traceback_limit s) (sample_rate s)) \<and>
      list_all (\<lambda>t. traceback_getitem (Traceback (snd t)) (int (length (snd t)) - 1)
                       = Inr (Frame (hd (snd t)))) (traces s)) \<and>
   (\<not> list_all (\<lambda>t. snd t \<noteq> []) (traces s) \<longrightarrow>
      filter_traces rt (IterableOf [Filter rt True pat ln False]) s = Inl IndexError \<and>
      filter_traces rt (IterableOf [Filter rt False pat ln False]) s = Inl IndexError)"
proof (intro conjI impI)
  let ?hit = "\<lambda>t. match_frame_private rt (Filter rt True pat ln False)
                     (frame_filename (Frame (hd (snd t)))) (frame_lineno (Frame (hd (snd t))))"
  assume nonempty: "list_all (\<lambda>t. snd t \<noteq> []) (traces s)"
  have m: "match_traceback rt (Filter rt incl pat ln False) (snd t) = Inr (?hit t = incl)"
    if "t \<in> set (traces s)" for t incl
  proof -
    from that nonempty obtain fr rest where "snd t = fr # rest"
      by (cases "snd t") (auto simp: list_all_iff)
    then show ?thesis by (simp add: match_traceback_single_Cons)
  qed
  have "\<forall>t\<in>set (traces s). filter_trace rt [Filter rt True pat ln False] [] t = Inr (?hit t)"
    using m [of _ True] by (simp add: filter_trace_include_one)
  from filter_raising_pure [OF this]
  show "filter_traces rt (IterableOf [Filter rt True pat ln False]) s
        = Inr (Snapshot (filter ?hit (traces s)) (traceback_limit s) (sample_rate s))"
    by (simp add: filter_traces_def Filter_sel)
  have "\<forall>t\<in>set (traces s). filter_trace rt [] [Filter rt False pat ln False] t = Inr (\<not> ?hit t)"
    using m [of _ False] by (simp add: filter_trace_exclude_one)
  from filter_raising_pure [OF this]
  show "filter_traces rt (IterableOf [Filter rt False pat ln False]) s
        = Inr (Snapshot (filter (\<lambda>t. \<not> ?hit t) (traces s)) (traceback_limit s) (sample_rate s))"
    by (simp add: filter_traces_def Filter_sel)
  show "list_all (\<lambda>t. traceback_getitem (Traceback (snd t)) (int (length (snd t)) - 1)
                       = Inr (Frame (hd (snd t)))) (traces s)"
    unfolding list_all_iff
  proof
    fix t assume "t \<in> set (traces s)"
    with nonempty obtain fr rest where "snd t = fr # rest"
      by (cases "snd t") (auto simp: list_all_iff)
    then show "traceback_getitem (Traceback (snd t)) (int (length (snd t)) - 1)
                 = Inr (Frame (hd (snd t)))"
      using traceback_getitem_last [of fr rest] by simp
  qed
next
  assume "\<not> list_all (\<lambda>t. snd t \<noteq> []) (traces s)"
  then obtain sz where empty: "(sz, []) \<in> set (traces s)"
    by (auto simp: list_all_iff)
  show "filter_traces rt (IterableOf [Filter rt True pat ln False]) s = Inl IndexError"
    using _ _ empty by (rule filter_traces_single_empty) (simp_all add: Filter_sel)
  show "filter_traces rt (IterableOf [Filter rt False pat ln False]) s = Inl IndexError"
    using _ _ empty by (rule filter_traces_single_empty) (simp_all add: Filter_sel)
qed

theorem single_frame_filter_witness:
  "filter_traces posix_literal (IterableOf [Filter posix_literal True ''b.py'' None False])
     (Snapshot [(10, [(''f'', ''b.py'', 5, 7), (''main'', ''a.py'', 1, 3)]),
                (30, [(''h'', ''a.py'', 1, 1)])] 25 0)
     = Inr (Snapshot [(10, [(''f'', ''b.py'', 5, 7), (''main'', ''a.py'', 1, 3)])] 25 0) \<and>
   filter_traces posix_literal (IterableOf [Filter posix_literal False ''b.py'' None False])
     (Snapshot [(10, [(''f'', ''b.py'', 5, 7), (''main'', ''a.py'', 1, 3)]),
                (30, [(''h'', ''a.py'', 1, 1)])] 25 0)
     = Inr (Snapshot [(30, [(''h'', ''a.py'', 1, 1)])] 25 0) \<and>
   filter_traces posix_literal (IterableOf [Filter posix_literal True ''b.py'' None False])
     (Snapshot [(5, [])] 25 0) = Inl IndexError"
  using single_frame_filter
    [of "Snapshot [(10, [(''f'', ''b.py'', 5, 7), (''main'', ''a.py'', 1, 3)]),
                   (30, [(''h'', ''a.py'', 1, 1)])] 25 0" posix_literal "''b.py''" None]
    single_frame_filter [of "Snapshot [(5, [])] 25 0" posix_literal "''b.py''" None]
  by (simp add: Snapshot_def match_frame_private_def Filter_def normalize_filename_def
      endswith_def posix_literal_def frame_filename_def frame_lineno_def)

text \<open>
  As the claim is stated, with the tested frame at index 0 of the Traceback, it fails. For
  the raw tuple \<^verbatim>\<open>(("main", "a.py", 1, 3), ("f", "b.py", 5, 7))\<close> item 0 of the Traceback is the
  frame in \<^verbatim>\<open>b.py\<close>, which matches the pattern \<^verbatim>\<open>b.py\<close>; yet the inclusive filter drops the
  trace and the exclusive filter keeps it, because both test the frame in \<^verbatim>\<open>a.py\<close>.
\<close>

theorem single_frame_filter_counterexample:
  "traceback_getitem (Traceback [(''main'', ''a.py'', 1, 3), (''f'', ''b.py'', 5, 7)]) 0 = Inr (Frame (''f'', ''b.py'', 5, 7)) \<and>
   match_frame_private posix_literal (Filter posix_literal True ''b.py'' None False) ''b.py'' 7 \<and>
   filter_traces posix_literal (IterableOf [Filter posix_literal True ''b.py'' None False])
     (Snapshot [(10, [(''main'', ''a.py'', 1, 3), (''f'', ''b.py'', 5, 7)])] 25 0)
     = Inr (Snapshot [] 25 0) \<and>
   filter_traces posix_literal (IterableOf [Filter posix_literal False ''b.py'' None False])
     (Snapshot [(10, [(''main'', ''a.py'', 1, 3), (''f'', ''b.py'', 5, 7)])] 25 0)
     = Inr (Snapshot [(10, [(''main'', ''a.py'', 1, 3), (''f'', ''b.py'', 5, 7)])] 25 0)"
  by (simp add: traceback_getitem_def tuple_getitem_def Traceback_def filter_traces_def
      filter_trace_def match_traceback_def match_frame_def match_frame_private_def Filter_def
      normalize_filename_def endswith_def posix_literal_def Snapshot_def not_raising_def)

section \<open>The key of the plain grouping\<close>

lemma accumulate_keys: "fst ` set (accumulate stats tb sz) = insert tb (fst ` set stats)"
  by (auto simp: accumulate_def dom_update split: option.splits)

lemma set_update_subset: "set (AList.update k v al) \<subseteq> insert (k, v) (set al)"
  by (induction al) auto

text \<open>Every Statistic is stored under its own traceback.\<close>

lemma accumulate_own_key:
  assumes "\<forall>p\<in>set stats. stat_traceback (snd p) = fst p"
  shows "\<forall>p\<in>set (accumulate stats tb sz). stat_traceback (snd p) = fst p"
proof (cases "map_of stats tb")
  case None
  with assms show ?thesis by (simp add: accumulate_def Statistic_def)
next
  case (Some stat)
  then have "(tb, stat) \<in> set stats" by (rule map_of_SomeD)
  with assms have "stat_traceback stat = tb" by auto
  with assms Some show ?thesis
    using set_update_subset
      [of tb "stat\<lparr>stat_size := stat_size stat + sz, stat_count := stat_count stat + 1\<rparr>" stats]
    by (auto simp: accumulate_def)
qed

text \<open>The memo of the plain loop only holds keys that \<open>derive_key\<close> built.\<close>

lemma group_trace_key:
  assumes "\<forall>tb k. memo tb = Some k \<longrightarrow> derive_key key_type tb = Inr k"
    and "derive_key key_type tb = Inr key"
  shows "\<exists>memo'. group_trace key_type (stats, memo) (sz, tb)
                    = Inr (accumulate stats key sz, memo') \<and>
                  (\<forall>tb k. memo' tb = Some k \<longrightarrow> derive_key key_type tb = Inr k)"
proof (cases "memo tb")
  case None
  with assms show ?thesis by (auto simp: group_trace_def)
next
  case (Some k)
  with assms have "k = key" by auto
  with Some assms(1) show ?thesis by (auto simp: group_trace_def)
qed

lemma group_traces_keys:
  assumes "group_traces key_type (stats, memo) trs = Inr (stats', memo')"
    and "\<forall>tb k. memo tb = Some k \<longrightarrow> derive_key key_type tb = Inr k"
    and "\<forall>p\<in>set stats. stat_traceback (snd p) = fst p"
  shows "(\<forall>tb k. memo' tb = Some k \<longrightarrow> derive_key key_type tb = Inr k) \<and>
         (\<forall>p\<in>set stats'. stat_traceback (snd p) = fst p) \<and>
         fst ` set stats \<subseteq> fst ` set stats' \<and>
         (\<forall>t\<in>set trs. \<exists>k. derive_key key_type (snd t) = Inr k \<and> k \<in> fst ` set stats')"
  using assms
proof (induction trs arbitrary: stats memo)
  case Nil
  then show ?case by simp
next
  case (Cons trace rest)
  note IH = Cons.IH and run = Cons.prems(1) and memo = Cons.prems(2) and own = Cons.prems(3)
  obtain sz tb where trace: "trace = (sz, tb)" by (cases trace)
  from run obtain st1 where step: "group_trace key_type (stats, memo) trace = Inr st1"
    and rest: "group_traces key_type st1 rest = Inr (stats', memo')"
    by (auto split: sum.splits)
  obtain key where key: "derive_key key_type tb = Inr key"
  proof (cases "memo tb")
    case None
    with step trace show ?thesis
      by (cases "derive_key key_type tb") (auto simp: group_trace_def intro: that)
  next
    case (Some k)
    with memo show ?thesis by (auto intro: that)
  qed
  from group_trace_key [OF memo key, of stats sz] step trace obtain m1 where
    st1: "st1 = (accumulate stats key sz, m1)"
    and m1: "\<forall>tb k. m1 tb = Some k \<longrightarrow> derive_key key_type tb = Inr k"
    by auto
  from rest st1 have rest': "group_traces key_type (accumulate stats key sz, m1) rest
      = Inr (stats', memo')" by simp
  from IH [OF rest' m1 accumulate_own_key [OF own]]
  have res: "(\<forall>tb k. memo' tb = Some k \<longrightarrow> derive_key key_type tb = Inr k)"
    "(\<forall>p\<in>set stats'. stat_traceback (snd p) = fst p)"
    "fst ` set (accumulate stats key sz) \<subseteq> fst ` set stats'"
    "(\<forall>t\<in>set rest. \<exists>k. derive_key key_type (snd t) = Inr k \<and> k \<in> fst ` set stats')"
    by blast+
  from res(3) have "key \<in> fst ` set stats'" and "fst ` set stats \<subseteq> fst ` set stats'"
    by (auto simp: accumulate_keys)
  with res key trace show ?case by auto
qed

lemma set_sort_reverse: "set (sort_reverse k xs) = set xs"
  by (simp add: sort_reverse_def)

lemma scale_heap_sample_traceback:
  "scale_heap_sample rt rate stat = Inr stat' \<Longrightarrow> stat_traceback stat' = stat_traceback stat"
  by (auto simp: scale_heap_sample_def split: if_splits option.splits)

lemma scale_heap_samples_own_key:
  assumes "scale_heap_samples rt rate stats = Inr stats'"
    and "\<forall>p\<in>set stats. stat_traceback (snd p) = fst p"
  shows "\<forall>p\<in>set stats'. stat_traceback (snd p) = fst p"
  using assms
proof (induction stats arbitrary: stats')
  case Nil
  then show ?case by simp
next
  case (Cons entry rest)
  obtain tb stat where entry: "entry = (tb, stat)" by (cases entry)
  from Cons.prems(1) obtain stat' rest' where
    one: "scale_heap_sample rt rate stat = Inr stat'"
    and more: "scale_heap_samples rt rate rest = Inr rest'"
    and stats': "stats' = (tb, stat') # rest'"
    by (auto simp: entry split: sum.splits)
  from one have "stat_traceback stat' = stat_traceback stat"
    by (rule scale_heap_sample_traceback)
  moreover from Cons.prems(2) have "stat_traceback stat = tb" by (simp add: entry)
  moreover from Cons.IH [OF more] Cons.prems(2)
  have "\<forall>p\<in>set rest'. stat_traceback (snd p) = fst p" by simp
  ultimately show ?case by (simp add: stats')
qed

lemma derive_key_Cons:
  assumes "key_type = ''lineno'' \<or> key_type = ''filename''"
  shows "derive_key key_type (fr # rest)
           = Inr (if key_type = ''lineno'' then Traceback [fr]
                  else Traceback [('''', frame_filename (Frame fr), 0, 0)])"
  using assms
  by (auto simp: derive_key_def tuple_getitem_0_Cons frame_filename_def split: prod.splits)

text \<open>
  Claim C3, amended. For every Snapshot and every trace with at least one frame, the plain
  (not cumulative) grouping by \<^verbatim>\<open>lineno\<close> accumulates the trace under the one-frame traceback
  that holds item 0 of its raw frame tuple, and the grouping by \<^verbatim>\<open>filename\<close> under the
  one-frame traceback with the empty name, the file name of item 0 and zero line numbers;
  a Statistic with that traceback is in the result of \<^verbatim>\<open>statistics\<close> whenever it returns. The
  Traceback of the trace stores the raw tuple reversed, so item 0 of the raw tuple is its
  last item, at index \<open>len - 1\<close>; it is the top, most recent frame for a raw capture that
  lists the most recent frame first.
\<close>

theorem plain_grouping_key:
  assumes "key_type = ''lineno'' \<or> key_type = ''filename''"
  shows
   "(traces s = pre @ (sz, fr # rest) # post \<and>
     group_traces key_type ([], Map.empty) pre = Inr (stats, memo) \<longrightarrow>
       (\<exists>memo'. group_trace key_type (stats, memo) (sz, fr # rest)
          = Inr (accumulate stats
                   (if key_type = ''lineno'' then Traceback [fr]
                    else Traceback [('''', frame_filename (Frame fr), 0, 0)]) sz, memo'))) \<and>
    ((sz, fr # rest) \<in> set (traces s) \<and> statistics rt key_type False s = Inr result \<longrightarrow>
       (if key_type = ''lineno'' then Traceback [fr]
        else Traceback [('''', frame_filename (Frame fr), 0, 0)]) \<in> stat_traceback ` set result) \<and>
    traceback_getitem (Traceback (fr # rest)) (int (length (fr # rest)) - 1) = Inr (Frame fr)"
proof (intro conjI impI)
  let ?key = "if key_type = ''lineno'' then Traceback [fr]
              else Traceback [('''', frame_filename (Frame fr), 0, 0)]"
  have key: "derive_key key_type (fr # rest) = Inr ?key"
    using assms by (rule derive_key_Cons)
  {
    assume a: "traces s = pre @ (sz, fr # rest) # post \<and>
      group_traces key_type ([], Map.empty) pre = Inr (stats, memo)"
    then have "\<forall>tb k. memo tb = Some k \<longrightarrow> derive_key key_type tb = Inr k"
      using group_traces_keys [of key_type "[]" Map.empty pre stats memo] by simp
    from group_trace_key [OF this key]
    show "\<exists>memo'. group_trace key_type (stats, memo) (sz, fr # rest)
            = Inr (accumulate stats ?key sz, memo')" by blast
  }
  {
    assume a: "(sz, fr # rest) \<in> set (traces s) \<and> statistics rt key_type False s = Inr result"
    then obtain grouped where grouped: "group_by rt key_type False s = Inr grouped"
      and result: "result = sort_reverse stat_sort_key (map snd grouped)"
      by (auto simp: statistics_def split: sum.splits)
    from grouped obtain plain memo' where
      loop: "group_traces key_type ([], Map.empty) (traces s) = Inr (plain, memo')"
      and scaled: "scale_heap_samples rt (sample_rate s) plain = Inr grouped"
      by (auto simp: group_by_def aggregate_def split: if_splits sum.splits)
    from group_traces_keys [OF loop]
    have own: "\<forall>p\<in>set plain. stat_traceback (snd p) = fst p"
      and all: "\<forall>t\<in>set (traces s). \<exists>k. derive_key key_type (snd t) = Inr k \<and> k \<in> fst ` set plain"
      by simp_all
    from a have mem: "(sz, fr # rest) \<in> set (traces s)" by simp
    from all mem have "\<exists>k. derive_key key_type (snd (sz, fr # rest)) = Inr k
        \<and> k \<in> fst ` set plain" by (rule bspec)
    then obtain k where "derive_key key_type (fr # rest) = Inr k" and k: "k \<in> fst ` set plain"
      by auto
    with key have "k = ?key" by simp
    with k have in_plain: "?key \<in> fst ` set plain" by simp
    have "set (map fst grouped) = set (map fst plain)"
      using scale_heap_samples_keys [OF scaled] by simp
    then have "fst ` set grouped = fst ` set plain" by (simp only: set_map)
    with in_plain have "?key \<in> fst ` set grouped" by simp
    then obtain p where key_p: "?key = fst p" and p: "p \<in> set grouped" by (rule imageE)
    from scale_heap_samples_own_key [OF scaled own] p
    have "stat_traceback (snd p) = fst p" by (rule bspec)
    with key_p have "?key = stat_traceback (snd p)" by simp
    moreover from p have "snd p \<in> set result"
      by (simp add: result set_sort_reverse)
    ultimately show "?key \<in> stat_traceback ` set result" by (rule image_eqI)
  }
  show "traceback_getitem (Traceback (fr # rest)) (int (length (fr # rest)) - 1) = Inr (Frame fr)"
    using traceback_getitem_last [of fr rest] by simp
qed

theorem plain_grouping_key_witness:
  "(\<exists>memo'. group_trace ''lineno'' ([], Map.empty)
               (10, [(''f'', ''b.py'', 5, 7), (''main'', ''a.py'', 1, 3)])
      = Inr (accumulate [] (Traceback [(''f'', ''b.py'', 5, 7)]) 10, memo')) \<and>
   Traceback [(''f'', ''b.py'', 5, 7)]
     \<in> stat_traceback ` set [Statistic [(''f'', ''b.py'', 5, 7)] 10 1] \<and>
   traceback_getitem (Traceback [(''f'', ''b.py'', 5, 7), (''main'', ''a.py'', 1, 3)]) 1
     = Inr (Frame (''f'', ''b.py'', 5, 7))"
proof -
  have "statistics posix_literal ''lineno'' False
      (Snapshot [(10, [(''f'', ''b.py'', 5, 7), (''main'', ''a.py'', 1, 3)])] 25 0)
      = Inr [Statistic [(''f'', ''b.py'', 5, 7)] 10 1]"
    by (simp add: statistics_def group_by_def aggregate_def group_trace_def derive_key_def
        Traceback_def accumulate_def Statistic_def scale_heap_sample_def sort_reverse_def
        Snapshot_def)
  then show ?thesis
    using plain_grouping_key
      [where key_type = "''lineno''" and pre = "[]" and post = "[]" and sz = 10
        and fr = "(''f'', ''b.py'', 5, 7)" and rest = "[(''main'', ''a.py'', 1, 3)]"
        and stats = "[]" and memo = Map.empty and rt = posix_literal
        and s = "Snapshot [(10, [(''f'', ''b.py'', 5, 7), (''main'', ''a.py'', 1, 3)])] 25 0"
        and result = "[Statistic [(''f'', ''b.py'', 5, 7)] 10 1]"]
    by (simp add: Snapshot_def Statistic_def Traceback_def)
qed

text \<open>
  As the claim is stated, with the top frame at index 0 of the Traceback, it fails. For the
  raw tuple \<^verbatim>\<open>(("main", "a.py", 1, 3), ("f", "b.py", 5, 7))\<close> item 0 of the Traceback is the
  frame in \<^verbatim>\<open>b.py\<close>, yet the trace is keyed by the frame in \<^verbatim>\<open>a.py\<close> and by the file
  \<^verbatim>\<open>a.py\<close>.
\<close>

theorem plain_grouping_key_counterexample:
  "traceback_getitem (Traceback [(''main'', ''a.py'', 1, 3), (''f'', ''b.py'', 5, 7)]) 0
     = Inr (Frame (''f'', ''b.py'', 5, 7)) \<and>
   statistics posix_literal ''lineno'' False
     (Snapshot [(10, [(''main'', ''a.py'', 1, 3), (''f'', ''b.py'', 5, 7)])] 25 0)
     = Inr [Statistic [(''main'', ''a.py'', 1, 3)] 10 1] \<and>
   statistics posix_literal ''filename'' False
     (Snapshot [(10, [(''main'', ''a.py'', 1, 3), (''f'', ''b.py'', 5, 7)])] 25 0)
     = Inr [Statistic [('''', ''a.py'', 0, 0)] 10 1]"
  by (simp add: traceback_getitem_def tuple_getitem_def Traceback_def statistics_def
      group_by_def aggregate_def group_trace_def derive_key_def accumulate_def Statistic_def
      scale_heap_sample_def sort_reverse_def Snapshot_def)

end
